theory Spec2Isabelle
  imports Complex_Main
begin

section \<open>The store: the tables of \<open>init_db\<close>\<close>

text \<open>
  The application keeps all of its state in one SQLite database. Each table of
  \<open>init_db\<close> is a list of rows in insertion order; a column that may be NULL is an
  \<open>option\<close>. Timestamps are the strings of \<open>now_str\<close>, prices are SQLite REALs, which the
  code only copies and compares, so they are rational numbers here.
\<close>

type_synonym timestamp = string

record user_row =
  user_id :: int
  full_name :: string
  phone :: string
  email :: "string option"
  password_hash :: string
  role :: string
  created_at :: timestamp

record vehicle_row =
  vehicle_id :: int
  v_customer_id :: int
  plate_no :: string
  v_make :: "string option"
  v_model :: "string option"
  v_color :: "string option"
  vehicle_type :: "string option"

record package_row =
  package_id :: int
  package_name :: string
  price :: rat
  duration_minutes :: int
  is_active :: int

record stage_row =
  stage_id :: int
  stage_name :: string
  stage_order :: int

record booking_row =
  booking_id :: int
  b_customer_id :: int
  b_vehicle_id :: int
  b_package_id :: int
  booking_datetime :: timestamp
  scheduled_datetime :: "string option"
  status :: string
  current_stage_id :: "int option"
  b_notes :: "string option"

record history_row =
  history_id :: int
  h_booking_id :: int
  h_stage_id :: int
  start_time :: timestamp
  end_time :: "timestamp option"
  updated_by_staff_id :: int

record assignment_row =
  a_booking_id :: int
  staff_id :: int
  assigned_at :: timestamp

record payment_row =
  payment_id :: int
  p_booking_id :: int
  amount :: rat
  pay_method :: string
  payment_status :: string
  paid_at :: "timestamp option"

text \<open>
  The \<open>seq_\<close> fields are the rows of \<open>sqlite_sequence\<close>: the largest key an
  AUTOINCREMENT table has ever handed out.
\<close>

record db =
  users :: "user_row list"
  vehicles :: "vehicle_row list"
  packages :: "package_row list"
  service_stages :: "stage_row list"
  bookings :: "booking_row list"
  booking_stage_history :: "history_row list"
  booking_staff_assignment :: "assignment_row list"
  payments :: "payment_row list"
  seq_users :: int
  seq_packages :: int
  seq_stages :: int
  seq_bookings :: int
  seq_history :: int
  seq_payments :: int

definition empty_db :: db where
  "empty_db = \<lparr>users = [], vehicles = [], packages = [], service_stages = [],
     bookings = [], booking_stage_history = [], booking_staff_assignment = [],
     payments = [], seq_users = 0, seq_packages = 0, seq_stages = 0,
     seq_bookings = 0, seq_history = 0, seq_payments = 0\<rparr>"

section \<open>Requests, sessions and responses\<close>

text \<open>
  The Flask session after \<open>login\<close> holds \<open>user_id\<close>, \<open>full_name\<close> and \<open>role\<close>; after
  \<open>logout\<close> it is empty.
\<close>

record session_data =
  s_user_id :: int
  s_full_name :: string
  s_role :: string

type_synonym session = "session_data option"

text \<open>The exceptions the handlers can raise; none of them is caught unless said.\<close>

datatype exn = TypeError | ValueError | IntegrityError | OverflowError

text \<open>
  A form field read through \<open>int(request.form.get(k))\<close>: a missing field gives
  \<open>int(None)\<close>, a \<open>TypeError\<close>; text that is no integer a \<open>ValueError\<close>.
\<close>

datatype int_field = Missing | Malformed | Num int

fun py_int :: "int_field \<Rightarrow> exn + int" where
  "py_int Missing = Inl TypeError"
| "py_int Malformed = Inl ValueError"
| "py_int (Num n) = Inr n"

text \<open>The messages handed to \<open>flash\<close>, one constructor per message text.\<close>

datatype message =
    Booking_created int      \<comment> \<open>\<open>Booking created (ID n).\<close>\<close>
  | Staff_assigned           \<comment> \<open>\<open>Staff assigned.\<close>\<close>
  | Stage_updated            \<comment> \<open>\<open>Stage updated and history saved.\<close>\<close>
  | Payment_updated          \<comment> \<open>\<open>Payment updated.\<close>\<close>
  | Booking_not_found        \<comment> \<open>\<open>Booking not found.\<close>\<close>
  | Invalid_role             \<comment> \<open>\<open>Invalid role.\<close>\<close>
  | User_created             \<comment> \<open>\<open>Staff/Admin user created.\<close>\<close>
  | User_create_failed       \<comment> \<open>\<open>User create failed: ...\<close>\<close>

text \<open>
  What a handler answers: the redirect to the login page of a failed guard, an
  uncaught exception (the request dies before \<open>conn.commit()\<close>), or a flashed message
  with its category followed by the redirect to the dashboard.
\<close>

datatype response = Redirect_login | Raised exn | Flash message string

definition require_login :: "session \<Rightarrow> bool" where
  "require_login sess = (sess \<noteq> None)"

definition require_staff :: "session \<Rightarrow> bool" where
  "require_staff sess =
     (require_login sess \<and>
      (case sess of None \<Rightarrow> False
       | Some s \<Rightarrow> s_role s = ''Staff'' \<or> s_role s = ''Admin''))"

text \<open>\<open>str.strip()\<close> on the code points below 256.\<close>

definition is_space :: "char \<Rightarrow> bool" where
  "is_space c = (of_char c \<in> set [9, 10, 11, 12, 13, 28, 29, 30, 31, 32, 133, 160 :: nat])"

definition strip :: "string \<Rightarrow> string" where
  "strip s = rev (dropWhile is_space (rev (dropWhile is_space s)))"

definition form_get :: "string option \<Rightarrow> string \<Rightarrow> string" where
  "form_get f dflt = (case f of None \<Rightarrow> dflt | Some v \<Rightarrow> v)"

definition strip_or_none :: "string \<Rightarrow> string option" where
  "strip_or_none s = (if strip s = [] then None else Some (strip s))"

section \<open>Queries and constraints\<close>

definition user_exists :: "db \<Rightarrow> int \<Rightarrow> bool" where
  "user_exists d uid = (\<exists>u \<in> set (users d). user_id u = uid)"

definition vehicle_exists :: "db \<Rightarrow> int \<Rightarrow> bool" where
  "vehicle_exists d vid = (\<exists>v \<in> set (vehicles d). vehicle_id v = vid)"

definition package_exists :: "db \<Rightarrow> int \<Rightarrow> bool" where
  "package_exists d pid = (\<exists>p \<in> set (packages d). package_id p = pid)"

definition stage_exists :: "db \<Rightarrow> int \<Rightarrow> bool" where
  "stage_exists d sid = (\<exists>s \<in> set (service_stages d). stage_id s = sid)"

definition booking_exists :: "db \<Rightarrow> int \<Rightarrow> bool" where
  "booking_exists d bid = (\<exists>b \<in> set (bookings d). booking_id b = bid)"

text \<open>
  An SQLite INTEGER is a signed 64-bit number. Python's \<open>sqlite3\<close> raises
  \<open>OverflowError\<close> when a statement is given another integer as a parameter, before
  the statement runs; \<open>int()\<close> and the \<open>int\<close> converter of the routes accept
  integers of any size.
\<close>

definition sqlite_int :: "int \<Rightarrow> bool" where
  "sqlite_int n = (- (2 ^ 63) \<le> n \<and> n < 2 ^ 63)"

text \<open>
  An AUTOINCREMENT key is one more than the largest key the table holds or has
  ever held.
\<close>

definition next_id :: "int \<Rightarrow> int list \<Rightarrow> int" where
  "next_id sq ids = fold max ids sq + 1"

definition booking_statuses :: "string list" where
  "booking_statuses = [''Booked'', ''InProgress'', ''Completed'', ''Cancelled'']"

definition payment_methods :: "string list" where
  "payment_methods = [''Cash'', ''Card'', ''Online'']"

definition payment_statuses :: "string list" where
  "payment_statuses = [''Unpaid'', ''Paid'', ''Partial'', ''Refunded'']"

definition user_roles :: "string list" where
  "user_roles = [''Customer'', ''Staff'', ''Admin'']"

text \<open>\<open>SELECT stage_id FROM service_stages ORDER BY stage_order LIMIT 1\<close>\<close>

fun min_order_stage :: "stage_row list \<Rightarrow> stage_row option" where
  "min_order_stage [] = None"
| "min_order_stage (s # ss) =
     (case min_order_stage ss of
        None \<Rightarrow> Some s
      | Some m \<Rightarrow> if stage_order s \<le> stage_order m then Some s else Some m)"

definition first_stage :: "db \<Rightarrow> int option" where
  "first_stage d = map_option stage_id (min_order_stage (service_stages d))"

text \<open>\<open>SELECT stage_order FROM service_stages WHERE stage_id=?\<close>, first row.\<close>

definition stage_order_of :: "db \<Rightarrow> int \<Rightarrow> int option" where
  "stage_order_of d sid =
     map_option stage_order (find (\<lambda>s. stage_id s = sid) (service_stages d))"

text \<open>\<open>SELECT MAX(stage_order) FROM service_stages\<close>: NULL on an empty table.\<close>

definition max_stage_order :: "db \<Rightarrow> int option" where
  "max_stage_order d =
     (case service_stages d of
        [] \<Rightarrow> None
      | s # ss \<Rightarrow> Some (fold max (map stage_order ss) (stage_order s)))"

text \<open>\<open>SELECT current_stage_id FROM bookings WHERE booking_id=?\<close>, first row.\<close>

definition select_current_stage :: "db \<Rightarrow> int \<Rightarrow> int option option" where
  "select_current_stage d bid =
     map_option current_stage_id (find (\<lambda>b. booking_id b = bid) (bookings d))"

text \<open>\<open>SELECT price FROM packages WHERE package_id=?\<close>, first row.\<close>

definition package_price :: "db \<Rightarrow> int \<Rightarrow> rat option" where
  "package_price d pid =
     map_option price (find (\<lambda>p. package_id p = pid) (packages d))"

section \<open>Statements that write\<close>

text \<open>
  Each INSERT and UPDATE checks the constraints of its table (foreign keys are on:
  \<open>PRAGMA foreign_keys = ON\<close>) and raises \<open>IntegrityError\<close> when one fails. The
  integers a statement takes from the request or the session are bound first, and
  raise \<open>OverflowError\<close> when they are no SQLite INTEGER; keys read from the store or
  handed out by it reach a statement as they are.
\<close>

definition insert_user ::
  "db \<Rightarrow> string \<Rightarrow> string \<Rightarrow> string option \<Rightarrow> string \<Rightarrow> string \<Rightarrow> timestamp \<Rightarrow> exn + db" where
  "insert_user d name ph em pwh rl t =
     (if (\<exists>u \<in> set (users d). phone u = ph)
         \<or> (em \<noteq> None \<and> (\<exists>u \<in> set (users d). email u = em))
         \<or> rl \<notin> set user_roles
      then Inl IntegrityError
      else let n = next_id (seq_users d) (map user_id (users d)) in
        Inr (d\<lparr>users := users d @ [\<lparr>user_id = n, full_name = name, phone = ph, email = em,
                 password_hash = pwh, role = rl, created_at = t\<rparr>],
               seq_users := n\<rparr>))"

definition insert_stage :: "db \<Rightarrow> string \<Rightarrow> int \<Rightarrow> exn + db" where
  "insert_stage d name ord =
     (if (\<exists>s \<in> set (service_stages d). stage_name s = name)
         \<or> (\<exists>s \<in> set (service_stages d). stage_order s = ord)
         \<or> \<not> 0 < ord
      then Inl IntegrityError
      else let n = next_id (seq_stages d) (map stage_id (service_stages d)) in
        Inr (d\<lparr>service_stages := service_stages d @
                 [\<lparr>stage_id = n, stage_name = name, stage_order = ord\<rparr>],
               seq_stages := n\<rparr>))"

definition insert_package :: "db \<Rightarrow> string \<Rightarrow> rat \<Rightarrow> int \<Rightarrow> int \<Rightarrow> exn + db" where
  "insert_package d name pr dur act =
     (if (\<exists>p \<in> set (packages d). package_name p = name)
         \<or> \<not> 0 \<le> pr \<or> \<not> 0 < dur \<or> act \<notin> set [0, 1]
      then Inl IntegrityError
      else let n = next_id (seq_packages d) (map package_id (packages d)) in
        Inr (d\<lparr>packages := packages d @
                 [\<lparr>package_id = n, package_name = name, price = pr,
                   duration_minutes = dur, is_active = act\<rparr>],
               seq_packages := n\<rparr>))"

text \<open>The INSERT into \<open>bookings\<close>; the second component is \<open>cur.lastrowid\<close>.\<close>

definition insert_booking ::
  "db \<Rightarrow> int \<Rightarrow> int \<Rightarrow> int \<Rightarrow> timestamp \<Rightarrow> string option \<Rightarrow> string \<Rightarrow> int option
     \<Rightarrow> string option \<Rightarrow> exn + (db \<times> int)" where
  "insert_booking d cust veh pkg t sched st stg nts =
     (if \<not> sqlite_int cust \<or> \<not> sqlite_int veh \<or> \<not> sqlite_int pkg then Inl OverflowError
      else if \<not> user_exists d cust \<or> \<not> vehicle_exists d veh \<or> \<not> package_exists d pkg
         \<or> (case stg of None \<Rightarrow> False | Some sid \<Rightarrow> \<not> stage_exists d sid)
         \<or> st \<notin> set booking_statuses
      then Inl IntegrityError
      else let n = next_id (seq_bookings d) (map booking_id (bookings d)) in
        Inr (d\<lparr>bookings := bookings d @
                 [\<lparr>booking_id = n, b_customer_id = cust, b_vehicle_id = veh,
                   b_package_id = pkg, booking_datetime = t, scheduled_datetime = sched,
                   status = st, current_stage_id = stg, b_notes = nts\<rparr>],
               seq_bookings := n\<rparr>, n))"

definition insert_history ::
  "db \<Rightarrow> int \<Rightarrow> int \<Rightarrow> timestamp \<Rightarrow> timestamp option \<Rightarrow> int \<Rightarrow> exn + db" where
  "insert_history d bid sid t_start t_end staff =
     (if \<not> sqlite_int staff then Inl OverflowError
      else if \<not> booking_exists d bid \<or> \<not> stage_exists d sid \<or> \<not> user_exists d staff
      then Inl IntegrityError
      else let n = next_id (seq_history d) (map history_id (booking_stage_history d)) in
        Inr (d\<lparr>booking_stage_history := booking_stage_history d @
                 [\<lparr>history_id = n, h_booking_id = bid, h_stage_id = sid,
                   start_time = t_start, end_time = t_end, updated_by_staff_id = staff\<rparr>],
               seq_history := n\<rparr>))"

definition insert_payment ::
  "db \<Rightarrow> int \<Rightarrow> rat \<Rightarrow> string \<Rightarrow> string \<Rightarrow> timestamp option \<Rightarrow> exn + db" where
  "insert_payment d bid amt meth st pd =
     (if (\<exists>p \<in> set (payments d). p_booking_id p = bid)
         \<or> \<not> booking_exists d bid \<or> \<not> 0 \<le> amt
         \<or> meth \<notin> set payment_methods \<or> st \<notin> set payment_statuses
      then Inl IntegrityError
      else let n = next_id (seq_payments d) (map payment_id (payments d)) in
        Inr (d\<lparr>payments := payments d @
                 [\<lparr>payment_id = n, p_booking_id = bid, amount = amt, pay_method = meth,
                   payment_status = st, paid_at = pd\<rparr>],
               seq_payments := n\<rparr>))"

definition insert_assignment :: "db \<Rightarrow> int \<Rightarrow> int \<Rightarrow> timestamp \<Rightarrow> exn + db" where
  "insert_assignment d bid sid t =
     (if \<not> sqlite_int bid \<or> \<not> sqlite_int sid then Inl OverflowError
      else if (\<exists>a \<in> set (booking_staff_assignment d). a_booking_id a = bid \<and> staff_id a = sid)
         \<or> \<not> booking_exists d bid \<or> \<not> user_exists d sid
      then Inl IntegrityError
      else Inr (d\<lparr>booking_staff_assignment := booking_staff_assignment d @
                  [\<lparr>a_booking_id = bid, staff_id = sid, assigned_at = t\<rparr>]\<rparr>))"

text \<open>
  \<open>UPDATE booking_stage_history SET end_time=? WHERE booking_id=? AND stage_id=?
  AND end_time IS NULL\<close>
\<close>

definition close_history :: "db \<Rightarrow> timestamp \<Rightarrow> int \<Rightarrow> int \<Rightarrow> db" where
  "close_history d t bid sid =
     d\<lparr>booking_stage_history :=
         map (\<lambda>h. if h_booking_id h = bid \<and> h_stage_id h = sid \<and> end_time h = None
                  then h\<lparr>end_time := Some t\<rparr> else h)
             (booking_stage_history d)\<rparr>"

text \<open>
  The step \<open>if end_prev and current_stage_id is not None\<close> of \<open>staff_update_stage\<close>:
  the UPDATE above runs only when the box is ticked and the booking has a stage.
\<close>

definition close_previous :: "db \<Rightarrow> bool \<Rightarrow> int option \<Rightarrow> timestamp \<Rightarrow> int \<Rightarrow> db" where
  "close_previous d end_prev cur_stage t bid =
     (case cur_stage of
        Some cur_id \<Rightarrow> if end_prev then close_history d t bid cur_id else d
      | None \<Rightarrow> d)"

text \<open>\<open>UPDATE bookings SET current_stage_id=?, status=? WHERE booking_id=?\<close>\<close>

definition update_booking_stage :: "db \<Rightarrow> int \<Rightarrow> string \<Rightarrow> int \<Rightarrow> exn + db" where
  "update_booking_stage d sid st bid =
     (if booking_exists d bid \<and> (\<not> stage_exists d sid \<or> st \<notin> set booking_statuses)
      then Inl IntegrityError
      else Inr (d\<lparr>bookings :=
                   map (\<lambda>b. if booking_id b = bid
                            then b\<lparr>current_stage_id := Some sid, status := st\<rparr> else b)
                       (bookings d)\<rparr>))"

text \<open>
  \<open>UPDATE payments SET method=?, payment_status=?, paid_at=? WHERE booking_id=?\<close>.
  The parameters come from \<open>request.form.get\<close> and are NULL for a missing field; the
  columns are NOT NULL and CHECKed, which matters only when a row is updated.
\<close>

definition update_payment ::
  "db \<Rightarrow> string option \<Rightarrow> string option \<Rightarrow> timestamp option \<Rightarrow> int \<Rightarrow> exn + db" where
  "update_payment d meth st pd bid =
     (if \<not> sqlite_int bid then Inl OverflowError
      else if \<not> (\<exists>p \<in> set (payments d). p_booking_id p = bid) then Inr d
      else case (meth, st) of
        (Some m, Some s) \<Rightarrow>
          if m \<in> set payment_methods \<and> s \<in> set payment_statuses
          then Inr (d\<lparr>payments :=
                      map (\<lambda>p. if p_booking_id p = bid
                               then p\<lparr>pay_method := m, payment_status := s, paid_at := pd\<rparr>
                               else p)
                          (payments d)\<rparr>)
          else Inl IntegrityError
      | _ \<Rightarrow> Inl IntegrityError)"

section \<open>The handlers\<close>

text \<open>
  A handler takes the session, the form fields, the readings of \<open>now_str\<close> it makes
  and the committed database, and returns its response with the database committed
  when the request is over. Every handler opens its own connection and commits once,
  at its end: a request that raises, or returns early, commits nothing.
\<close>

definition init_stages :: "(string \<times> int) list" where
  "init_stages = [(''Washing'', 1), (''Drying'', 2), (''Polishing'', 3), (''Completed'', 4)]"

definition init_packages :: "(string \<times> rat \<times> int \<times> int) list" where
  "init_packages = [(''Basic Wash'', 500, 20, 1), (''Standard Wash'', 800, 35, 1),
     (''Premium Wash'', 1200, 50, 1)]"

fun insert_stages :: "db \<Rightarrow> (string \<times> int) list \<Rightarrow> exn + db" where
  "insert_stages d [] = Inr d"
| "insert_stages d ((name, ord) # rest) =
     (case insert_stage d name ord of Inl e \<Rightarrow> Inl e | Inr d' \<Rightarrow> insert_stages d' rest)"

fun insert_packages :: "db \<Rightarrow> (string \<times> rat \<times> int \<times> int) list \<Rightarrow> exn + db" where
  "insert_packages d [] = Inr d"
| "insert_packages d ((name, pr, dur, act) # rest) =
     (case insert_package d name pr dur act of
        Inl e \<Rightarrow> Inl e | Inr d' \<Rightarrow> insert_packages d' rest)"

text \<open>
  \<open>init_db\<close> seeds the stages, the packages and the administrator where the tables
  have none. \<open>hash_password\<close> is SHA-256, taken as the parameter \<open>hp\<close>.
\<close>

definition init_db :: "(string \<Rightarrow> string) \<Rightarrow> timestamp \<Rightarrow> db \<Rightarrow> exn + db" where
  "init_db hp t d =
     (case (if service_stages d = [] then insert_stages d init_stages else Inr d) of
        Inl e \<Rightarrow> Inl e
      | Inr d1 \<Rightarrow>
     (case (if packages d1 = [] then insert_packages d1 init_packages else Inr d1) of
        Inl e \<Rightarrow> Inl e
      | Inr d2 \<Rightarrow>
        if \<not> (\<exists>u \<in> set (users d2). role u = ''Admin'')
        then insert_user d2 ''Admin'' ''0300-0000000'' (Some ''admin@carwash.local'')
               (hp ''admin123'') ''Admin'' t
        else Inr d2))"

definition create_booking ::
  "session \<Rightarrow> int_field \<Rightarrow> int_field \<Rightarrow> string option \<Rightarrow> string option
     \<Rightarrow> timestamp \<Rightarrow> timestamp \<Rightarrow> db \<Rightarrow> response \<times> db" where
  "create_booking sess vehicle_f package_f scheduled_f notes_f t_booking t_history d =
     (case sess of
        None \<Rightarrow> (Redirect_login, d)
      | Some s \<Rightarrow>
        if \<not> require_login sess \<or> s_role s \<noteq> ''Customer'' then (Redirect_login, d)
        else
     (case py_int vehicle_f of Inl e \<Rightarrow> (Raised e, d) | Inr veh_id \<Rightarrow>
     (case py_int package_f of Inl e \<Rightarrow> (Raised e, d) | Inr pkg_id \<Rightarrow>
        let scheduled_raw = strip (form_get scheduled_f []);
            scheduled = (if scheduled_raw = [] then None
               else Some (map (\<lambda>c. if c = CHR ''T'' then CHR '' '' else c) scheduled_raw));
            notes = strip_or_none (form_get notes_f [])
        in
     (case first_stage d of None \<Rightarrow> (Raised TypeError, d) | Some first_stage_id \<Rightarrow>
     (case insert_booking d (s_user_id s) veh_id pkg_id t_booking scheduled
             ''Booked'' (Some first_stage_id) notes of
        Inl e \<Rightarrow> (Raised e, d)
      | Inr (d1, new_id) \<Rightarrow>
     (case insert_history d1 new_id first_stage_id t_history None 1 of
        Inl e \<Rightarrow> (Raised e, d)
      | Inr d2 \<Rightarrow>
     (case package_price d2 pkg_id of
        None \<Rightarrow> (Raised TypeError, d)
      | Some pkg_price \<Rightarrow>
     (case insert_payment d2 new_id pkg_price ''Cash'' ''Unpaid'' None of
        Inl e \<Rightarrow> (Raised e, d)
      | Inr d3 \<Rightarrow> (Flash (Booking_created new_id) ''success'', d3)))))))))"

text \<open>
  The loop of \<open>staff_assign\<close>: \<open>clock k\<close> is the reading of \<open>now_str\<close> in iteration
  \<open>k\<close>. Only \<open>IntegrityError\<close> is caught.
\<close>

fun assign_loop :: "int \<Rightarrow> int_field list \<Rightarrow> (nat \<Rightarrow> timestamp) \<Rightarrow> nat \<Rightarrow> db \<Rightarrow> exn + db" where
  "assign_loop bid [] clock k d = Inr d"
| "assign_loop bid (sid # rest) clock k d =
     (case py_int sid of
        Inl e \<Rightarrow> Inl e
      | Inr n \<Rightarrow>
        (case insert_assignment d bid n (clock k) of
           Inl e \<Rightarrow> if e = IntegrityError then assign_loop bid rest clock (Suc k) d else Inl e
         | Inr d' \<Rightarrow> assign_loop bid rest clock (Suc k) d'))"

definition staff_assign ::
  "session \<Rightarrow> int_field \<Rightarrow> int_field list \<Rightarrow> (nat \<Rightarrow> timestamp) \<Rightarrow> db \<Rightarrow> response \<times> db" where
  "staff_assign sess booking_f staff_ids clock d =
     (if \<not> require_staff sess then (Redirect_login, d)
      else case py_int booking_f of
        Inl e \<Rightarrow> (Raised e, d)
      | Inr bid \<Rightarrow>
        (case assign_loop bid staff_ids clock 0 d of
           Inl e \<Rightarrow> (Raised e, d)
         | Inr d' \<Rightarrow> (Flash Staff_assigned ''success'', d')))"

definition create_staff_user ::
  "(string \<Rightarrow> string) \<Rightarrow> session \<Rightarrow> string option \<Rightarrow> string option \<Rightarrow> string option
     \<Rightarrow> string option \<Rightarrow> string option \<Rightarrow> timestamp \<Rightarrow> db \<Rightarrow> response \<times> db" where
  "create_staff_user hp sess full_name_f phone_f email_f role_f password_f t d =
     (if \<not> require_staff sess then (Redirect_login, d)
      else
        let name = strip (form_get full_name_f []);
            ph = strip (form_get phone_f []);
            em = strip_or_none (form_get email_f []);
            rl = strip (form_get role_f ''Staff'');
            password = strip (form_get password_f [])
        in if rl \<notin> set [''Staff'', ''Admin''] then (Flash Invalid_role ''danger'', d)
           else case insert_user d name ph em (hp password) rl t of
                  Inl e \<Rightarrow> if e = IntegrityError then (Flash User_create_failed ''danger'', d)
                           else (Raised e, d)
                | Inr d' \<Rightarrow> (Flash User_created ''success'', d'))"

text \<open>
  \<open>t_close\<close> is the reading of \<open>now_str\<close> in the UPDATE that closes the previous
  entry, \<open>t_open\<close> the one in the INSERT of the new entry.
\<close>

definition staff_update_stage ::
  "session \<Rightarrow> int \<Rightarrow> int_field \<Rightarrow> string option \<Rightarrow> timestamp \<Rightarrow> timestamp \<Rightarrow> db
     \<Rightarrow> response \<times> db" where
  "staff_update_stage sess bid stage_f end_prev_f t_close t_open d =
     (case sess of
        None \<Rightarrow> (Redirect_login, d)
      | Some s \<Rightarrow>
        if \<not> require_staff sess then (Redirect_login, d)
        else
     (case py_int stage_f of Inl e \<Rightarrow> (Raised e, d) | Inr new_stage_id \<Rightarrow>
        let end_prev = (end_prev_f = Some ''on'') in
        if \<not> sqlite_int bid then (Raised OverflowError, d)
        else
     (case select_current_stage d bid of
        None \<Rightarrow> (Flash Booking_not_found ''danger'', d)
      | Some cur_stage \<Rightarrow>
        let d1 = close_previous d end_prev cur_stage t_close bid in
        if \<not> sqlite_int new_stage_id then (Raised OverflowError, d)
        else
     (case stage_order_of d1 new_stage_id of
        None \<Rightarrow> (Raised TypeError, d)
      | Some new_order \<Rightarrow>
        let max_order = max_stage_order d1;
            new_status = (if Some new_order = max_order then ''Completed'' else ''InProgress'')
        in
     (case update_booking_stage d1 new_stage_id new_status bid of
        Inl e \<Rightarrow> (Raised e, d)
      | Inr d2 \<Rightarrow>
     (case insert_history d2 bid new_stage_id t_open None (s_user_id s) of
        Inl e \<Rightarrow> (Raised e, d)
      | Inr d3 \<Rightarrow> (Flash Stage_updated ''success'', d3)))))))"

definition staff_update_payment ::
  "session \<Rightarrow> int \<Rightarrow> string option \<Rightarrow> string option \<Rightarrow> timestamp \<Rightarrow> db \<Rightarrow> response \<times> db" where
  "staff_update_payment sess bid method_f status_f t d =
     (if \<not> require_staff sess then (Redirect_login, d)
      else
        let pd = (if status_f = Some ''Paid'' then Some t else None) in
        case update_payment d method_f status_f pd bid of
          Inl e \<Rightarrow> (Raised e, d)
        | Inr d' \<Rightarrow> (Flash Payment_updated ''success'', d'))"

text \<open>
  A request succeeded when it ran to its \<open>conn.commit()\<close> and flashed in the category
  \<open>success\<close>; it failed when the guard redirected it, it raised, or it flashed in the
  category \<open>danger\<close>.
\<close>

fun failed :: "response \<Rightarrow> bool" where
  "failed Redirect_login = True"
| "failed (Raised e) = True"
| "failed (Flash m c) = (c = ''danger'')"

section \<open>A seeded store\<close>

text \<open>
  A stand-in for \<open>hash_password\<close>, a clock that stands still, the database
  \<open>init_db\<close> makes from nothing, and the same with two customers, one
  staff member and one vehicle for each customer (the rows \<open>register\<close>,
  \<open>create_staff_user\<close> and \<open>add_vehicle\<close> insert).
\<close>

definition demo_hash :: "string \<Rightarrow> string" where
  "demo_hash pw = ''#'' @ pw"

definition noon :: "nat \<Rightarrow> timestamp" where
  "noon k = ''2024-01-03 12:00:00''"

definition seeded_db :: db where
  "seeded_db =
     (case init_db demo_hash ''2024-01-01 09:00:00'' empty_db of
        Inr d \<Rightarrow> d | Inl e \<Rightarrow> empty_db)"

definition demo_db :: db where
  "demo_db = seeded_db
     \<lparr>users := users seeded_db @
        [\<lparr>user_id = 2, full_name = ''Ali'', phone = ''0301'', email = None,
          password_hash = ''#a'', role = ''Customer'', created_at = ''2024-01-02 10:00:00''\<rparr>,
         \<lparr>user_id = 3, full_name = ''Sara'', phone = ''0302'', email = None,
          password_hash = ''#s'', role = ''Customer'', created_at = ''2024-01-02 11:00:00''\<rparr>,
         \<lparr>user_id = 4, full_name = ''Bilal'', phone = ''0303'', email = None,
          password_hash = ''#b'', role = ''Staff'', created_at = ''2024-01-02 12:00:00''\<rparr>],
      vehicles :=
        [\<lparr>vehicle_id = 1, v_customer_id = 2, plate_no = ''LEA-1'', v_make = None,
          v_model = None, v_color = None, vehicle_type = None\<rparr>,
         \<lparr>vehicle_id = 2, v_customer_id = 3, plate_no = ''LEB-2'', v_make = None,
          v_model = None, v_color = None, vehicle_type = None\<rparr>],
      seq_users := 4\<rparr>"

definition ali :: session where
  "ali = Some \<lparr>s_user_id = 2, s_full_name = ''Ali'', s_role = ''Customer''\<rparr>"

definition bilal :: session where
  "bilal = Some \<lparr>s_user_id = 4, s_full_name = ''Bilal'', s_role = ''Staff''\<rparr>"

definition admin :: session where
  "admin = Some \<lparr>s_user_id = 1, s_full_name = ''Admin'', s_role = ''Admin''\<rparr>"

text \<open>The seeded store after the customer Ali has booked the package priced 800.\<close>

definition booked_db :: db where
  "booked_db = snd (create_booking ali (Num 1) (Num 2) None None
     ''2024-01-03 09:00:00'' ''2024-01-03 09:00:01'' demo_db)"

text \<open>The same store after the staff member Bilal has moved the booking to the last stage.\<close>

definition completed_db :: db where
  "completed_db = snd (staff_update_stage bilal 1 (Num 4) (Some ''on'')
     ''2024-01-03 10:00:00'' ''2024-01-03 10:00:01'' booked_db)"

text \<open>
  A store whose stage table was filled by hand: the keys of the stages do not follow
  their order. Ali books the package priced 1200 there.
\<close>

definition renumbered_db :: db where
  "renumbered_db = demo_db
     \<lparr>service_stages :=
        [\<lparr>stage_id = 11, stage_name = ''Washing'', stage_order = 20\<rparr>,
         \<lparr>stage_id = 12, stage_name = ''Intake'', stage_order = 10\<rparr>,
         \<lparr>stage_id = 13, stage_name = ''Completed'', stage_order = 40\<rparr>,
         \<lparr>stage_id = 14, stage_name = ''Drying'', stage_order = 30\<rparr>],
      seq_stages := 14\<rparr>"

definition renumbered_booked_db :: db where
  "renumbered_booked_db = snd (create_booking ali (Num 1) (Num 3) None None
     ''2024-01-03 09:00:00'' ''2024-01-03 09:00:01'' renumbered_db)"

section \<open>Sequences of requests and the properties of the ledger\<close>

text \<open>The two requests that write bookings and history, and a run of them in order.\<close>

datatype request =
    CreateBooking session int_field int_field "string option" "string option"
      timestamp timestamp
  | AdvanceStage session int int_field "string option" timestamp timestamp

fun handle :: "request \<Rightarrow> db \<Rightarrow> response \<times> db" where
  "handle (CreateBooking sess veh pkg sched nts t_b t_h) d =
     create_booking sess veh pkg sched nts t_b t_h d"
| "handle (AdvanceStage sess bid stg ep t_c t_o) d =
     staff_update_stage sess bid stg ep t_c t_o d"

fun run :: "request list \<Rightarrow> db \<Rightarrow> db" where
  "run [] d = d"
| "run (r # rs) d = run rs (snd (handle r d))"

text \<open>The checkbox \<open>end_prev\<close> of the stage form is ticked.\<close>

fun closes_previous :: "request \<Rightarrow> bool" where
  "closes_previous (CreateBooking sess veh pkg sched nts t_b t_h) = True"
| "closes_previous (AdvanceStage sess bid stg ep t_c t_o) = (ep = Some ''on'')"

text \<open>The history entries of a booking with \<open>end_time IS NULL\<close>.\<close>

definition open_entries :: "db \<Rightarrow> int \<Rightarrow> history_row list" where
  "open_entries d bid =
     filter (\<lambda>h. h_booking_id h = bid \<and> end_time h = None) (booking_stage_history d)"

definition live_statuses :: "string list" where
  "live_statuses = [''Booked'', ''InProgress'', ''Completed'']"

text \<open>
  At most one entry of the booking is open; a booking that is Booked, InProgress or
  Completed has exactly one, and it is the entry of the current stage.
\<close>

definition one_open_entry :: "db \<Rightarrow> booking_row \<Rightarrow> bool" where
  "one_open_entry d b =
     (length (open_entries d (booking_id b)) \<le> 1 \<and>
      (status b \<in> set live_statuses \<longrightarrow>
         map (\<lambda>h. Some (h_stage_id h)) (open_entries d (booking_id b)) = [current_stage_id b]))"

text \<open>
  What the ledger keeps from one request to the next: the property above for each
  booking, every open entry on the current stage of its booking, and the foreign key
  of the history table.
\<close>

definition ledger_ok :: "db \<Rightarrow> bool" where
  "ledger_ok d =
     ((\<forall>b \<in> set (bookings d).
         one_open_entry d b \<and>
         (\<forall>h \<in> set (open_entries d (booking_id b)). current_stage_id b = Some (h_stage_id h)))
      \<and> (\<forall>h \<in> set (booking_stage_history d). booking_exists d (h_booking_id h)))"

text \<open>The current stage of the booking has the largest \<open>stage_order\<close>.\<close>

definition at_last_stage :: "db \<Rightarrow> booking_row \<Rightarrow> bool" where
  "at_last_stage d b =
     (case current_stage_id b of
        None \<Rightarrow> False
      | Some sid \<Rightarrow>
          (case stage_order_of d sid of
             None \<Rightarrow> False
           | Some ord \<Rightarrow> max_stage_order d = Some ord))"

definition status_follows_stage :: "db \<Rightarrow> bool" where
  "status_follows_stage d =
     (\<forall>b \<in> set (bookings d). (status b = ''Completed'') = at_last_stage d b)"

text \<open>The stage a new booking starts on is not the stage of the largest order.\<close>

definition first_stage_not_last :: "db \<Rightarrow> bool" where
  "first_stage_not_last d =
     (case first_stage d of
        None \<Rightarrow> True
      | Some sid \<Rightarrow>
          (case stage_order_of d sid of
             None \<Rightarrow> True
           | Some ord \<Rightarrow> max_stage_order d \<noteq> Some ord))"

text \<open>
  The same in the words of the stage table: the current stage of the booking is a row
  of the table, and no row has a larger \<open>stage_order\<close>.
\<close>

definition on_last_stage :: "db \<Rightarrow> booking_row \<Rightarrow> bool" where
  "on_last_stage d b =
     (\<exists>st \<in> set (service_stages d).
        current_stage_id b = Some (stage_id st) \<and>
        (\<forall>x \<in> set (service_stages d). stage_order x \<le> stage_order st))"

text \<open>The stage table has stages of different orders.\<close>

definition stage_orders_differ :: "db \<Rightarrow> bool" where
  "stage_orders_differ d =
     (\<exists>x \<in> set (service_stages d). \<exists>y \<in> set (service_stages d).
        stage_order x \<noteq> stage_order y)"

text \<open>The keys the tables hold, and the bookings the payments refer to, are SQLite INTEGERs.\<close>

definition int64_keys :: "db \<Rightarrow> bool" where
  "int64_keys d =
     ((\<forall>u \<in> set (users d). sqlite_int (user_id u)) \<and>
      (\<forall>v \<in> set (vehicles d). sqlite_int (vehicle_id v)) \<and>
      (\<forall>p \<in> set (packages d). sqlite_int (package_id p)) \<and>
      (\<forall>s \<in> set (service_stages d). sqlite_int (stage_id s)) \<and>
      (\<forall>b \<in> set (bookings d). sqlite_int (booking_id b)) \<and>
      (\<forall>p \<in> set (payments d). sqlite_int (p_booking_id p)))"

text \<open>
  The two form fields of a payment update pass the NOT NULL and CHECK constraints of
  the columns \<open>method\<close> and \<open>payment_status\<close>.
\<close>

definition payment_columns_ok :: "string option \<Rightarrow> string option \<Rightarrow> bool" where
  "payment_columns_ok method_f status_f =
     (case method_f of
        None \<Rightarrow> False
      | Some m \<Rightarrow>
          (case status_f of
             None \<Rightarrow> False
           | Some st \<Rightarrow> m \<in> set payment_methods \<and> st \<in> set payment_statuses))"

text \<open>The primary key of an assignment row, and the keys of the table.\<close>

definition assignment_key :: "assignment_row \<Rightarrow> int \<times> int" where
  "assignment_key a = (a_booking_id a, staff_id a)"

definition assigned :: "db \<Rightarrow> (int \<times> int) list" where
  "assigned d = map assignment_key (booking_staff_assignment d)"

text \<open>
  A day at the car wash: Ali books, Bilal moves the booking to Drying and then to the
  last stage, closing the previous entry each time; on the renumbered store and on the
  seeded one.
\<close>

definition renumbered_day :: "request list" where
  "renumbered_day =
     [CreateBooking ali (Num 1) (Num 3) None None ''2024-01-03 09:00:00'' ''2024-01-03 09:00:01'',
      AdvanceStage bilal 1 (Num 14) (Some ''on'') ''2024-01-03 09:30:00'' ''2024-01-03 09:30:01'',
      AdvanceStage bilal 1 (Num 13) (Some ''on'') ''2024-01-03 10:00:00'' ''2024-01-03 10:00:01'']"

definition busy_day :: "request list" where
  "busy_day =
     [CreateBooking ali (Num 1) (Num 2) None None ''2024-01-03 09:00:00'' ''2024-01-03 09:00:01'',
      AdvanceStage bilal 1 (Num 2) (Some ''on'') ''2024-01-03 09:30:00'' ''2024-01-03 09:30:01'',
      AdvanceStage bilal 1 (Num 4) (Some ''on'') ''2024-01-03 10:00:00'' ''2024-01-03 10:00:01'']"

section \<open>Auxiliary facts about keys and the statements that write\<close>

lemma fold_max_ge_init: "(a::int) \<le> fold max xs a"
proof (induction xs arbitrary: a)
  case Nil
  show ?case by simp
next
  case (Cons y ys)
  have "a \<le> max y a" by simp
  also have "max y a \<le> fold max ys (max y a)" by (rule Cons.IH)
  finally show ?case by simp
qed

lemma fold_max_ge: "(x::int) \<in> set xs \<Longrightarrow> x \<le> fold max xs a"
proof (induction xs arbitrary: a)
  case Nil
  then show ?case by simp
next
  case (Cons y ys)
  show ?case
  proof (cases "x = y")
    case True
    have "y \<le> max y a" by simp
    also have "max y a \<le> fold max ys (max y a)" by (rule fold_max_ge_init)
    finally show ?thesis using True by simp
  next
    case False
    with Cons.prems have "x \<in> set ys" by simp
    then have "x \<le> fold max ys (max y a)" by (rule Cons.IH)
    then show ?thesis by simp
  qed
qed

lemma next_id_fresh: "x \<in> set ids \<Longrightarrow> x < next_id sq ids"
  using fold_max_ge [of x ids sq] by (simp add: next_id_def)

lemma max_stage_order_Max:
  assumes "service_stages d \<noteq> []"
  shows "max_stage_order d = Some (Max (stage_order ` set (service_stages d)))"
proof -
  from assms obtain s ss where e: "service_stages d = s # ss"
    by (cases "service_stages d") auto
  have "fold max (map stage_order ss) (stage_order s)
      = Max (set (stage_order s # map stage_order ss))"
    by (simp only: Max.set_eq_fold)
  then show ?thesis by (simp add: max_stage_order_def e)
qed

lemma stage_order_of_SomeD:
  "stage_order_of d n = Some ord \<Longrightarrow> stage_exists d n \<and> service_stages d \<noteq> []"
  by (auto simp: stage_order_of_def stage_exists_def find_Some_iff)

lemma stage_order_of_None: "stage_order_of d n = None \<longleftrightarrow> \<not> stage_exists d n"
  by (auto simp: stage_order_of_def stage_exists_def find_None_iff)

lemma select_current_stage_SomeD:
  "select_current_stage d bid = Some cur \<Longrightarrow> booking_exists d bid"
  by (auto simp: select_current_stage_def booking_exists_def find_Some_iff)

lemma select_current_stage_None:
  "select_current_stage d bid = None \<longleftrightarrow> \<not> booking_exists d bid"
  by (auto simp: select_current_stage_def booking_exists_def find_None_iff)

lemma close_history_frame:
  "users (close_history d t b c) = users d"
  "vehicles (close_history d t b c) = vehicles d"
  "packages (close_history d t b c) = packages d"
  "bookings (close_history d t b c) = bookings d"
  "service_stages (close_history d t b c) = service_stages d"
  "payments (close_history d t b c) = payments d"
  "booking_staff_assignment (close_history d t b c) = booking_staff_assignment d"
  "seq_history (close_history d t b c) = seq_history d"
  by (simp_all add: close_history_def)

lemma close_history_queries:
  "user_exists (close_history d t b c) = user_exists d"
  "booking_exists (close_history d t b c) = booking_exists d"
  "stage_exists (close_history d t b c) = stage_exists d"
  "stage_order_of (close_history d t b c) = stage_order_of d"
  "max_stage_order (close_history d t b c) = max_stage_order d"
  by (simp_all add: fun_eq_iff close_history_frame user_exists_def booking_exists_def
        stage_exists_def stage_order_of_def max_stage_order_def)

lemma close_previous_frame:
  "users (close_previous d e cur t b) = users d"
  "vehicles (close_previous d e cur t b) = vehicles d"
  "packages (close_previous d e cur t b) = packages d"
  "bookings (close_previous d e cur t b) = bookings d"
  "service_stages (close_previous d e cur t b) = service_stages d"
  "payments (close_previous d e cur t b) = payments d"
  "booking_staff_assignment (close_previous d e cur t b) = booking_staff_assignment d"
  "seq_history (close_previous d e cur t b) = seq_history d"
  by (simp_all add: close_previous_def close_history_frame split: option.split)

lemma close_previous_queries:
  "user_exists (close_previous d e cur t b) = user_exists d"
  "booking_exists (close_previous d e cur t b) = booking_exists d"
  "stage_exists (close_previous d e cur t b) = stage_exists d"
  "stage_order_of (close_previous d e cur t b) = stage_order_of d"
  "max_stage_order (close_previous d e cur t b) = max_stage_order d"
  by (simp_all add: close_previous_def close_history_queries split: option.split)

lemma update_booking_stage_ok:
  assumes "stage_exists d sid" and "st \<in> set booking_statuses"
  shows "update_booking_stage d sid st bid =
     Inr (d\<lparr>bookings := map (\<lambda>b. if booking_id b = bid
                                  then b\<lparr>current_stage_id := Some sid, status := st\<rparr> else b)
                            (bookings d)\<rparr>)"
  using assms by (simp add: update_booking_stage_def)

lemma insert_history_ok:
  assumes "booking_exists d bid" and "stage_exists d sid" and "user_exists d staff"
    and "sqlite_int staff"
  shows "insert_history d bid sid t_start t_end staff =
     Inr (d\<lparr>booking_stage_history := booking_stage_history d @
             [\<lparr>history_id = next_id (seq_history d) (map history_id (booking_stage_history d)),
               h_booking_id = bid, h_stage_id = sid, start_time = t_start, end_time = t_end,
               updated_by_staff_id = staff\<rparr>],
            seq_history := next_id (seq_history d) (map history_id (booking_stage_history d))\<rparr>)"
  using assms by (simp add: insert_history_def Let_def)

lemma booking_exists_iff: "booking_exists e x \<longleftrightarrow> x \<in> set (map booking_id (bookings e))"
  by (auto simp: booking_exists_def)

lemma booking_exists_same_ids:
  assumes "bookings e = map f (bookings d)" and "\<And>b. booking_id (f b) = booking_id b"
  shows "booking_exists e = booking_exists d"
proof -
  have "map booking_id (bookings e) = map booking_id (bookings d)"
    using assms by (simp add: comp_def)
  then show ?thesis by (simp only: fun_eq_iff booking_exists_iff) simp
qed

text \<open>The database a stage update commits when nothing stops it.\<close>

lemma staff_update_stage_success:
  fixes d :: db and cur :: "int option" and end_prev_f :: "string option"
    and t_close :: timestamp and bid :: int and ord :: int
  defines "d1 \<equiv> close_previous d (end_prev_f = Some ''on'') cur t_close bid"
  defines "st \<equiv> (if max_stage_order d = Some ord then ''Completed'' else ''InProgress'')"
  defines "hid \<equiv> next_id (seq_history d) (map history_id (booking_stage_history d1))"
  assumes sess: "sess = Some s" "s_role s = ''Staff'' \<or> s_role s = ''Admin''"
    and actor: "user_exists d (s_user_id s)"
    and booking: "select_current_stage d bid = Some cur"
    and stage: "stage_order_of d n = Some ord"
    and ints: "sqlite_int bid" "sqlite_int n" "sqlite_int (s_user_id s)"
  shows "staff_update_stage sess bid (Num n) end_prev_f t_close t_open d =
     (Flash Stage_updated ''success'',
      d1\<lparr>bookings := map (\<lambda>b. if booking_id b = bid
                               then b\<lparr>current_stage_id := Some n, status := st\<rparr> else b)
                         (bookings d),
         booking_stage_history := booking_stage_history d1 @
           [\<lparr>history_id = hid, h_booking_id = bid, h_stage_id = n, start_time = t_open,
             end_time = None, updated_by_staff_id = s_user_id s\<rparr>],
         seq_history := hid\<rparr>)"
proof -
  have frame: "bookings d1 = bookings d" "seq_history d1 = seq_history d"
    by (simp_all add: d1_def close_previous_frame)
  have q: "user_exists d1 = user_exists d" "booking_exists d1 = booking_exists d"
    "stage_exists d1 = stage_exists d" "stage_order_of d1 = stage_order_of d"
    "max_stage_order d1 = max_stage_order d"
    by (simp_all add: d1_def close_previous_queries)
  from stage have se: "stage_exists d n" using stage_order_of_SomeD by blast
  from booking have be: "booking_exists d bid" by (rule select_current_stage_SomeD)
  have st_ok: "st \<in> set booking_statuses" by (simp add: st_def booking_statuses_def)
  let ?d2 = "d1\<lparr>bookings := map (\<lambda>b. if booking_id b = bid
                               then b\<lparr>current_stage_id := Some n, status := st\<rparr> else b)
                         (bookings d)\<rparr>"
  have upd: "update_booking_stage d1 n st bid = Inr ?d2"
    using se st_ok by (simp add: update_booking_stage_ok q frame)
  have "booking_exists ?d2 = booking_exists d"
    by (rule booking_exists_same_ids
          [where f = "\<lambda>b. if booking_id b = bid
                         then b\<lparr>current_stage_id := Some n, status := st\<rparr> else b"])
       simp_all
  with be have be2: "booking_exists ?d2 bid" by simp
  have se2: "stage_exists ?d2 n" using se by (simp add: stage_exists_def q [symmetric])
  have ue2: "user_exists ?d2 (s_user_id s)"
    using actor by (simp add: user_exists_def q [symmetric])
  have ins: "insert_history ?d2 bid n t_open None (s_user_id s) =
     Inr (?d2\<lparr>booking_stage_history := booking_stage_history ?d2 @
             [\<lparr>history_id = next_id (seq_history ?d2) (map history_id (booking_stage_history ?d2)),
               h_booking_id = bid, h_stage_id = n, start_time = t_open, end_time = None,
               updated_by_staff_id = s_user_id s\<rparr>],
            seq_history := next_id (seq_history ?d2) (map history_id (booking_stage_history ?d2))\<rparr>)"
    by (rule insert_history_ok [OF be2 se2 ue2 ints(3)])
  have run: "staff_update_stage sess bid (Num n) end_prev_f t_close t_open d =
     (case update_booking_stage d1 n st bid of
        Inl e \<Rightarrow> (Raised e, d)
      | Inr d2 \<Rightarrow>
          (case insert_history d2 bid n t_open None (s_user_id s) of
             Inl e \<Rightarrow> (Raised e, d)
           | Inr d3 \<Rightarrow> (Flash Stage_updated ''success'', d3)))"
    using sess booking stage ints
    by (simp add: staff_update_stage_def require_staff_def require_login_def d1_def [symmetric] st_def q
          Let_def eq_commute [of "Some ord"])
  show ?thesis
    unfolding run upd by (simp add: ins frame hid_def)
qed
lemma min_order_stage_mem: "min_order_stage ss = Some m \<Longrightarrow> m \<in> set ss"
  by (induction ss arbitrary: m) (auto split: option.splits if_splits)

lemma first_stage_SomeD: "first_stage d = Some sid \<Longrightarrow> stage_exists d sid"
  by (auto simp: first_stage_def stage_exists_def dest: min_order_stage_mem)

lemma package_price_SomeD: "package_price d pid = Some pr \<Longrightarrow> package_exists d pid"
  by (auto simp: package_price_def package_exists_def find_Some_iff)

lemma package_price_None: "package_price d pid = None \<longleftrightarrow> \<not> package_exists d pid"
  by (auto simp: package_price_def package_exists_def find_None_iff)

lemma next_booking_id_fresh:
  "\<not> booking_exists d (next_id (seq_bookings d) (map booking_id (bookings d)))"
proof
  let ?n = "next_id (seq_bookings d) (map booking_id (bookings d))"
  assume "booking_exists d ?n"
  then have "?n \<in> set (map booking_id (bookings d))" by (simp only: booking_exists_iff)
  then have "?n < ?n" by (rule next_id_fresh)
  then show False by simp
qed

lemma insert_booking_ok:
  assumes "user_exists d cust" and "vehicle_exists d veh" and "package_exists d pkg"
    and "stage_exists d sid" and "st \<in> set booking_statuses"
    and "sqlite_int cust" and "sqlite_int veh" and "sqlite_int pkg"
  shows "insert_booking d cust veh pkg t sched st (Some sid) nts =
     Inr (d\<lparr>bookings := bookings d @
             [\<lparr>booking_id = next_id (seq_bookings d) (map booking_id (bookings d)),
               b_customer_id = cust, b_vehicle_id = veh, b_package_id = pkg,
               booking_datetime = t, scheduled_datetime = sched, status = st,
               current_stage_id = Some sid, b_notes = nts\<rparr>],
            seq_bookings := next_id (seq_bookings d) (map booking_id (bookings d))\<rparr>,
          next_id (seq_bookings d) (map booking_id (bookings d)))"
  using assms by (simp add: insert_booking_def Let_def)

lemma insert_payment_ok:
  assumes "\<not> (\<exists>p \<in> set (payments d). p_booking_id p = bid)" and "booking_exists d bid"
    and "0 \<le> amt" and "meth \<in> set payment_methods" and "st \<in> set payment_statuses"
  shows "insert_payment d bid amt meth st pd =
     Inr (d\<lparr>payments := payments d @
             [\<lparr>payment_id = next_id (seq_payments d) (map payment_id (payments d)),
               p_booking_id = bid, amount = amt, pay_method = meth, payment_status = st,
               paid_at = pd\<rparr>],
            seq_payments := next_id (seq_payments d) (map payment_id (payments d))\<rparr>)"
  using assms by (simp add: insert_payment_def Let_def)

text \<open>The database a booking request commits when nothing stops it.\<close>

lemma create_booking_success:
  fixes d :: db and sched_f :: "string option" and notes_f :: "string option"
  defines "bid \<equiv> next_id (seq_bookings d) (map booking_id (bookings d))"
  defines "hid \<equiv> next_id (seq_history d) (map history_id (booking_stage_history d))"
  defines "pay_id \<equiv> next_id (seq_payments d) (map payment_id (payments d))"
  defines "sched \<equiv> (if strip (form_get sched_f []) = [] then None
     else Some (map (\<lambda>c. if c = CHR ''T'' then CHR '' '' else c) (strip (form_get sched_f []))))"
  assumes sess: "sess = Some s" "s_role s = ''Customer''"
    and customer: "user_exists d (s_user_id s)"
    and vehicle: "vehicle_exists d vid"
    and package: "package_price d pid = Some pr" "0 \<le> pr"
    and stage: "first_stage d = Some fs"
    and system_user: "user_exists d 1"
    and payments_fk: "\<forall>p \<in> set (payments d). booking_exists d (p_booking_id p)"
    and ints: "sqlite_int (s_user_id s)" "sqlite_int vid" "sqlite_int pid"
  shows "create_booking sess (Num vid) (Num pid) sched_f notes_f t_booking t_history d =
     (Flash (Booking_created bid) ''success'',
      d\<lparr>bookings := bookings d @
           [\<lparr>booking_id = bid, b_customer_id = s_user_id s, b_vehicle_id = vid,
             b_package_id = pid, booking_datetime = t_booking, scheduled_datetime = sched,
             status = ''Booked'', current_stage_id = Some fs,
             b_notes = strip_or_none (form_get notes_f [])\<rparr>],
         seq_bookings := bid,
         booking_stage_history := booking_stage_history d @
           [\<lparr>history_id = hid, h_booking_id = bid, h_stage_id = fs, start_time = t_history,
             end_time = None, updated_by_staff_id = 1\<rparr>],
         seq_history := hid,
         payments := payments d @
           [\<lparr>payment_id = pay_id, p_booking_id = bid, amount = pr, pay_method = ''Cash'',
             payment_status = ''Unpaid'', paid_at = None\<rparr>],
         seq_payments := pay_id\<rparr>)"
proof -
  let ?row = "\<lparr>booking_id = bid, b_customer_id = s_user_id s, b_vehicle_id = vid,
             b_package_id = pid, booking_datetime = t_booking, scheduled_datetime = sched,
             status = ''Booked'', current_stage_id = Some fs,
             b_notes = strip_or_none (form_get notes_f [])\<rparr>"
  let ?d1 = "d\<lparr>bookings := bookings d @ [?row], seq_bookings := bid\<rparr>"
  let ?hrow = "\<lparr>history_id = hid, h_booking_id = bid, h_stage_id = fs, start_time = t_history,
             end_time = None, updated_by_staff_id = 1\<rparr>"
  let ?d2 = "?d1\<lparr>booking_stage_history := booking_stage_history d @ [?hrow],
                 seq_history := hid\<rparr>"
  have se: "stage_exists d fs" using stage by (rule first_stage_SomeD)
  have pe: "package_exists d pid" using package(1) by (rule package_price_SomeD)
  have ib: "insert_booking d (s_user_id s) vid pid t_booking sched ''Booked'' (Some fs)
              (strip_or_none (form_get notes_f [])) = Inr (?d1, bid)"
    using insert_booking_ok [OF customer vehicle pe se _ ints, of "''Booked''"]
    by (simp add: booking_statuses_def bid_def)
  have b1: "booking_exists ?d1 bid" by (simp add: booking_exists_def)
  have s1: "stage_exists ?d1 fs" using se by (simp add: stage_exists_def)
  have u1: "user_exists ?d1 1" using system_user by (simp add: user_exists_def)
  have ih: "insert_history ?d1 bid fs t_history None 1 = Inr ?d2"
    using insert_history_ok [OF b1 s1 u1, of t_history None]
    by (simp add: hid_def sqlite_int_def)
  have pp: "package_price ?d2 pid = Some pr" using package(1) by (simp add: package_price_def)
  have fresh: "\<not> booking_exists d bid" unfolding bid_def by (rule next_booking_id_fresh)
  have nopay: "\<not> (\<exists>p \<in> set (payments ?d2). p_booking_id p = bid)"
    using payments_fk fresh by auto
  have b2: "booking_exists ?d2 bid" by (simp add: booking_exists_def)
  have ip: "insert_payment ?d2 bid pr ''Cash'' ''Unpaid'' None =
      Inr (?d2\<lparr>payments := payments d @
           [\<lparr>payment_id = pay_id, p_booking_id = bid, amount = pr, pay_method = ''Cash'',
             payment_status = ''Unpaid'', paid_at = None\<rparr>],
         seq_payments := pay_id\<rparr>)"
    using insert_payment_ok [OF nopay b2 package(2), of "''Cash''" "''Unpaid''" None]
    by (simp add: payment_methods_def payment_statuses_def pay_id_def)
  show ?thesis
    using sess stage
    by (simp add: create_booking_def require_login_def Let_def sched_def [symmetric] ib ih pp ip)
qed
lemma insert_history_InrD:
  "insert_history d bid sid t_start t_end staff = Inr d' \<Longrightarrow>
     booking_exists d bid \<and> stage_exists d sid \<and> user_exists d staff \<and> sqlite_int staff"
  by (simp add: insert_history_def split: if_splits)

lemma update_booking_stage_users:
  "update_booking_stage d sid st bid = Inr d' \<Longrightarrow> users d' = users d"
  by (auto simp: update_booking_stage_def split: if_splits)

text \<open>A stage update that changes the database got past every check.\<close>

lemma staff_update_stage_changes:
  assumes "snd (staff_update_stage sess bid stage_f end_prev_f t_close t_open d) \<noteq> d"
  shows "\<exists>s n cur ord. sess = Some s \<and> (s_role s = ''Staff'' \<or> s_role s = ''Admin'')
     \<and> stage_f = Num n \<and> select_current_stage d bid = Some cur
     \<and> stage_order_of d n = Some ord \<and> user_exists d (s_user_id s)
     \<and> sqlite_int bid \<and> sqlite_int n \<and> sqlite_int (s_user_id s)"
proof -
  from assms obtain s where s: "sess = Some s"
    by (cases sess) (auto simp: staff_update_stage_def)
  from assms s have rl: "s_role s = ''Staff'' \<or> s_role s = ''Admin''"
    by (auto simp: staff_update_stage_def require_staff_def require_login_def split: if_splits)
  from assms s rl obtain n where n: "stage_f = Num n"
    by (cases stage_f) (auto simp: staff_update_stage_def require_staff_def require_login_def)
  from assms s rl n have ib: "sqlite_int bid"
    by (auto simp: staff_update_stage_def require_staff_def require_login_def Let_def
          split: if_splits)
  from assms s rl n ib obtain cur where cur: "select_current_stage d bid = Some cur"
    by (cases "select_current_stage d bid")
       (auto simp: staff_update_stage_def require_staff_def require_login_def Let_def)
  from assms s rl n ib cur have inn: "sqlite_int n"
    by (auto simp: staff_update_stage_def require_staff_def require_login_def Let_def
          split: if_splits)
  from assms s rl n ib cur inn obtain ord where ord: "stage_order_of d n = Some ord"
    by (cases "stage_order_of d n")
       (auto simp: staff_update_stage_def require_staff_def require_login_def Let_def close_previous_queries)
  let ?d1 = "close_previous d (end_prev_f = Some ''on'') cur t_close bid"
  let ?st = "if Some ord = max_stage_order d then ''Completed'' else ''InProgress''"
  have run: "staff_update_stage sess bid stage_f end_prev_f t_close t_open d =
     (case update_booking_stage ?d1 n ?st bid of
        Inl e \<Rightarrow> (Raised e, d)
      | Inr d2 \<Rightarrow>
          (case insert_history d2 bid n t_open None (s_user_id s) of
             Inl e \<Rightarrow> (Raised e, d)
           | Inr d3 \<Rightarrow> (Flash Stage_updated ''success'', d3)))"
    using s rl n cur ord ib inn
    by (simp add: staff_update_stage_def require_staff_def require_login_def Let_def close_previous_queries)
  have "user_exists d (s_user_id s) \<and> sqlite_int (s_user_id s)"
  proof (cases "update_booking_stage ?d1 n ?st bid")
    case (Inl e)
    with run assms show ?thesis by simp
  next
    case (Inr d2)
    then have u: "users d2 = users d"
      by (simp add: update_booking_stage_users close_previous_frame)
    show ?thesis
    proof (cases "insert_history d2 bid n t_open None (s_user_id s)")
      case (Inl e)
      with run Inr assms show ?thesis by simp
    next
      case (Inr d3)
      then have "user_exists d2 (s_user_id s) \<and> sqlite_int (s_user_id s)"
        by (simp add: insert_history_InrD)
      then show ?thesis by (simp add: user_exists_def u)
    qed
  qed
  with s rl n cur ord ib inn show ?thesis by blast
qed

lemma staff_update_stage_failed:
  "failed (fst (staff_update_stage sess bid stage_f end_prev_f t_close t_open d)) \<Longrightarrow>
     snd (staff_update_stage sess bid stage_f end_prev_f t_close t_open d) = d"
  by (cases stage_f)
     (auto simp: staff_update_stage_def Let_def split: option.splits sum.splits if_splits)

lemma create_booking_failed:
  "failed (fst (create_booking sess veh_f pkg_f sched_f notes_f t_b t_h d)) \<Longrightarrow>
     snd (create_booking sess veh_f pkg_f sched_f notes_f t_b t_h d) = d"
  by (cases veh_f; cases pkg_f)
     (auto simp: create_booking_def require_login_def Let_def split: option.splits sum.splits if_splits)
lemma min_order_stage_least:
  "min_order_stage ss = Some m \<Longrightarrow> \<forall>x \<in> set ss. stage_order m \<le> stage_order x"
proof (induction ss arbitrary: m)
  case Nil
  then show ?case by simp
next
  case (Cons s ss)
  show ?case
  proof (cases "min_order_stage ss")
    case None
    then have "ss = []" by (cases ss) (auto split: option.splits if_splits)
    with Cons.prems show ?thesis by simp
  next
    case (Some m')
    with Cons.IH have le: "\<forall>x \<in> set ss. stage_order m' \<le> stage_order x" by simp
    from Cons.prems Some le show ?thesis by (auto split: if_splits)
  qed
qed

section \<open>The open entries of the history ledger\<close>

lemma open_entries_close_other:
  "x \<noteq> bid \<Longrightarrow> open_entries (close_history d t bid c) x = open_entries d x"
proof -
  assume ne: "x \<noteq> bid"
  have "\<And>H. filter (\<lambda>h. h_booking_id h = x \<and> end_time h = None)
            (map (\<lambda>h. if h_booking_id h = bid \<and> h_stage_id h = c \<and> end_time h = None
                       then h\<lparr>end_time := Some t\<rparr> else h) H)
        = filter (\<lambda>h. h_booking_id h = x \<and> end_time h = None) H"
    subgoal for H using ne by (induction H) auto
    done
  then show ?thesis by (simp add: open_entries_def close_history_def)
qed

lemma filter_closed_empty:
  assumes "\<forall>h \<in> set H. h_booking_id h = bid \<and> end_time h = None \<longrightarrow> h_stage_id h = c"
  shows "filter (\<lambda>h. h_booking_id h = bid \<and> end_time h = None)
            (map (\<lambda>h. if h_booking_id h = bid \<and> h_stage_id h = c \<and> end_time h = None
                       then h\<lparr>end_time := Some t\<rparr> else h) H) = []"
  using assms
proof (induction H)
  case Nil
  show ?case by simp
next
  case (Cons a H)
  then show ?case by (cases "end_time a") simp_all
qed

lemma open_entries_close_same:
  assumes "\<forall>h \<in> set (open_entries d bid). h_stage_id h = c"
  shows "open_entries (close_history d t bid c) bid = []"
proof -
  have eq: "booking_stage_history (close_history d t bid c) =
      map (\<lambda>h. if h_booking_id h = bid \<and> h_stage_id h = c \<and> end_time h = None
                then h\<lparr>end_time := Some t\<rparr> else h) (booking_stage_history d)"
    by (simp add: close_history_def)
  from assms have "\<forall>h \<in> set (booking_stage_history d).
      h_booking_id h = bid \<and> end_time h = None \<longrightarrow> h_stage_id h = c"
    by (simp add: open_entries_def)
  then show ?thesis
    unfolding open_entries_def eq by (rule filter_closed_empty)
qed

lemma close_history_booking_ids:
  "map h_booking_id (booking_stage_history (close_history d t bid c)) =
     map h_booking_id (booking_stage_history d)"
  by (simp add: close_history_def comp_def)

lemma close_previous_booking_ids:
  "map h_booking_id (booking_stage_history (close_previous d e cur t bid)) =
     map h_booking_id (booking_stage_history d)"
  by (simp add: close_previous_def close_history_booking_ids split: option.split)

lemma open_entries_append:
  "booking_stage_history d' = booking_stage_history d @ [hrow] \<Longrightarrow>
   open_entries d' x = open_entries d x @
     (if h_booking_id hrow = x \<and> end_time hrow = None then [hrow] else [])"
  by (simp add: open_entries_def)

lemma ledger_ok_no_orphans:
  assumes "ledger_ok d" and "\<not> booking_exists d x"
  shows "open_entries d x = []"
proof -
  from assms have "\<forall>h \<in> set (booking_stage_history d). h_booking_id h \<noteq> x"
    by (auto simp: ledger_ok_def)
  then show ?thesis by (simp add: open_entries_def filter_empty_conv)
qed
lemma select_current_stage_row:
  assumes "select_current_stage d bid = Some cur"
  obtains b where "b \<in> set (bookings d)" and "booking_id b = bid" and "current_stage_id b = cur"
  using assms by (auto simp: select_current_stage_def find_Some_iff in_set_conv_nth)

lemma ledger_ok_add_booking:
  assumes ok: "ledger_ok d" and fresh: "\<not> booking_exists d bid"
    and bk: "bookings d' = bookings d @ [row]" "booking_id row = bid"
      "current_stage_id row = Some fs"
    and hs: "booking_stage_history d' = booking_stage_history d @ [hrow]"
      "h_booking_id hrow = bid" "h_stage_id hrow = fs" "end_time hrow = None"
  shows "ledger_ok d'"
proof -
  have oe: "open_entries d' x = open_entries d x @ (if x = bid then [hrow] else [])" for x
    using open_entries_append [OF hs(1), of x] hs(2,4) by auto
  have new: "open_entries d' bid = [hrow]"
    using oe [of bid] ledger_ok_no_orphans [OF ok fresh] by simp
  have old: "open_entries d' (booking_id b) = open_entries d (booking_id b)"
    if "b \<in> set (bookings d)" for b
  proof -
    from that fresh have "booking_id b \<noteq> bid" by (auto simp: booking_exists_def)
    then show ?thesis by (simp add: oe)
  qed
  have be: "booking_exists d' x" if "booking_exists d x \<or> x = bid" for x
    using that by (auto simp: booking_exists_def bk)
  show ?thesis
    unfolding ledger_ok_def
  proof (intro conjI ballI)
    fix b assume b: "b \<in> set (bookings d')"
    show "one_open_entry d' b"
    proof (cases "b = row")
      case True
      then show ?thesis by (simp add: one_open_entry_def bk new hs)
    next
      case False
      with b have "b \<in> set (bookings d)" by (simp add: bk)
      with ok show ?thesis by (simp add: ledger_ok_def one_open_entry_def old)
    qed
  next
    fix b h assume b: "b \<in> set (bookings d')" and h: "h \<in> set (open_entries d' (booking_id b))"
    show "current_stage_id b = Some (h_stage_id h)"
    proof (cases "b = row")
      case True
      with h show ?thesis by (simp add: bk new hs)
    next
      case False
      with b have "b \<in> set (bookings d)" by (simp add: bk)
      with ok h show ?thesis by (simp add: ledger_ok_def old)
    qed
  next
    fix h assume "h \<in> set (booking_stage_history d')"
    then have "h = hrow \<or> h \<in> set (booking_stage_history d)" by (auto simp: hs)
    with ok have "booking_exists d (h_booking_id h) \<or> h_booking_id h = bid"
      by (auto simp: ledger_ok_def hs)
    then show "booking_exists d' (h_booking_id h)" by (rule be)
  qed
qed

lemma ledger_ok_advance:
  assumes ok: "ledger_ok d" and sel: "select_current_stage d bid = Some cur"
    and bk: "bookings d' = map (\<lambda>b. if booking_id b = bid
                 then b\<lparr>current_stage_id := Some n, status := st\<rparr> else b) (bookings d)"
    and hs: "booking_stage_history d' =
        booking_stage_history (close_previous d True cur t bid) @ [hrow]"
      "h_booking_id hrow = bid" "h_stage_id hrow = n" "end_time hrow = None"
  shows "ledger_ok d'"
proof -
  let ?d1 = "close_previous d True cur t bid"
  from sel obtain b0 where b0: "b0 \<in> set (bookings d)" "booking_id b0 = bid"
    "current_stage_id b0 = cur"
    by (rule select_current_stage_row)
  from ok b0 have at_cur: "\<forall>h \<in> set (open_entries d bid). cur = Some (h_stage_id h)"
    by (auto simp: ledger_ok_def)
  have closed: "open_entries ?d1 bid = []"
  proof (cases cur)
    case None
    with at_cur have "open_entries d bid = []" by (cases "open_entries d bid") auto
    with None show ?thesis by (simp add: close_previous_def)
  next
    case (Some c)
    with at_cur have "\<forall>h \<in> set (open_entries d bid). h_stage_id h = c" by auto
    then have "open_entries (close_history d t bid c) bid = []"
      by (rule open_entries_close_same)
    with Some show ?thesis by (simp add: close_previous_def)
  qed
  have other: "open_entries ?d1 x = open_entries d x" if "x \<noteq> bid" for x
    using that by (cases cur) (simp_all add: close_previous_def open_entries_close_other)
  have oe: "open_entries d' x = open_entries ?d1 x @ (if x = bid then [hrow] else [])" for x
    using open_entries_append [OF hs(1), of x] hs(2,4) by auto
  have new: "open_entries d' bid = [hrow]" using oe [of bid] closed by simp
  have old: "open_entries d' x = open_entries d x" if "x \<noteq> bid" for x
    using that by (simp add: oe other)
  have same_ids: "booking_exists d' = booking_exists d"
    by (rule booking_exists_same_ids [OF bk]) simp
  have rows: "(booking_id b = bid \<and> current_stage_id b = Some n)
      \<or> (booking_id b \<noteq> bid \<and> b \<in> set (bookings d))"
    if "b \<in> set (bookings d')" for b
    using that by (auto simp: bk)
  show ?thesis
    unfolding ledger_ok_def
  proof (intro conjI ballI)
    fix b assume b: "b \<in> set (bookings d')"
    from rows [OF b] show "one_open_entry d' b"
    proof
      assume "booking_id b = bid \<and> current_stage_id b = Some n"
      then show ?thesis by (simp add: one_open_entry_def new hs)
    next
      assume "booking_id b \<noteq> bid \<and> b \<in> set (bookings d)"
      with ok show ?thesis by (simp add: ledger_ok_def one_open_entry_def old)
    qed
  next
    fix b h assume b: "b \<in> set (bookings d')" and h: "h \<in> set (open_entries d' (booking_id b))"
    from rows [OF b] show "current_stage_id b = Some (h_stage_id h)"
    proof
      assume "booking_id b = bid \<and> current_stage_id b = Some n"
      with h show ?thesis by (simp add: new hs)
    next
      assume "booking_id b \<noteq> bid \<and> b \<in> set (bookings d)"
      with ok h show ?thesis by (simp add: ledger_ok_def old)
    qed
  next
    fix h assume "h \<in> set (booking_stage_history d')"
    then have "h_booking_id h \<in> set (map h_booking_id (booking_stage_history d')) " by simp
    then have "h_booking_id h = bid \<or> h_booking_id h \<in> set (map h_booking_id (booking_stage_history d))"
      unfolding hs(1) map_append set_append close_previous_booking_ids
      by (auto simp: hs)
    moreover have "booking_exists d bid" using b0 by (auto simp: booking_exists_def)
    ultimately have "booking_exists d (h_booking_id h)"
      using ok by (auto simp: ledger_ok_def)
    then show "booking_exists d' (h_booking_id h)" by (simp add: same_ids)
  qed
qed
lemma insert_booking_InrD:
  assumes "insert_booking d cust veh pkg t sched st stg nts = Inr (d1, n)"
  shows "n = next_id (seq_bookings d) (map booking_id (bookings d))"
    and "d1 = d\<lparr>bookings := bookings d @
             [\<lparr>booking_id = n, b_customer_id = cust, b_vehicle_id = veh, b_package_id = pkg,
               booking_datetime = t, scheduled_datetime = sched, status = st,
               current_stage_id = stg, b_notes = nts\<rparr>],
            seq_bookings := n\<rparr>"
  using assms by (auto simp: insert_booking_def Let_def split: if_splits)

lemma insert_history_InrE:
  assumes "insert_history d bid sid t_start t_end staff = Inr d'"
  obtains hid where "d' = d\<lparr>booking_stage_history := booking_stage_history d @
             [\<lparr>history_id = hid, h_booking_id = bid, h_stage_id = sid, start_time = t_start,
               end_time = t_end, updated_by_staff_id = staff\<rparr>],
            seq_history := hid\<rparr>"
  using assms by (auto simp: insert_history_def Let_def split: if_splits)

lemma insert_payment_InrE:
  assumes "insert_payment d bid amt meth st pd = Inr d'"
  obtains pay_id where "d' = d\<lparr>payments := payments d @
             [\<lparr>payment_id = pay_id, p_booking_id = bid, amount = amt, pay_method = meth,
               payment_status = st, paid_at = pd\<rparr>],
            seq_payments := pay_id\<rparr>"
  using assms by (auto simp: insert_payment_def Let_def split: if_splits)

text \<open>A booking request that changes the database appended one booking and one open entry.\<close>

lemma create_booking_changes:
  assumes "snd (create_booking sess veh_f pkg_f sched_f notes_f t_b t_h d) \<noteq> d"
  obtains row hrow fs where
    "bookings (snd (create_booking sess veh_f pkg_f sched_f notes_f t_b t_h d)) =
       bookings d @ [row]"
    "booking_stage_history (snd (create_booking sess veh_f pkg_f sched_f notes_f t_b t_h d)) =
       booking_stage_history d @ [hrow]"
    "service_stages (snd (create_booking sess veh_f pkg_f sched_f notes_f t_b t_h d)) =
       service_stages d"
    "booking_id row = next_id (seq_bookings d) (map booking_id (bookings d))"
    "status row = ''Booked''" "current_stage_id row = Some fs" "first_stage d = Some fs"
    "h_booking_id hrow = booking_id row" "h_stage_id hrow = fs" "end_time hrow = None"
proof -
  let ?r = "create_booking sess veh_f pkg_f sched_f notes_f t_b t_h d"
  from assms obtain s where s: "sess = Some s"
    by (cases sess) (auto simp: create_booking_def require_login_def)
  from assms s have rl: "s_role s = ''Customer''"
    by (auto simp: create_booking_def require_login_def split: if_splits)
  from assms s rl obtain vid where vid: "veh_f = Num vid"
    by (cases veh_f) (auto simp: create_booking_def require_login_def)
  from assms s rl vid obtain pid where pid: "pkg_f = Num pid"
    by (cases pkg_f) (auto simp: create_booking_def require_login_def)
  from assms s rl vid pid obtain fs where fs: "first_stage d = Some fs"
    by (cases "first_stage d") (auto simp: create_booking_def require_login_def Let_def)
  let ?sched = "if strip (form_get sched_f []) = [] then None
     else Some (map (\<lambda>c. if c = CHR ''T'' then CHR '' '' else c) (strip (form_get sched_f [])))"
  let ?ib = "insert_booking d (s_user_id s) vid pid t_b ?sched ''Booked'' (Some fs)
     (strip_or_none (form_get notes_f []))"
  have run1: "?r = (case ?ib of Inl e \<Rightarrow> (Raised e, d)
      | Inr (d1, new_id) \<Rightarrow>
     (case insert_history d1 new_id fs t_h None 1 of
        Inl e \<Rightarrow> (Raised e, d)
      | Inr d2 \<Rightarrow>
     (case package_price d2 pid of
        None \<Rightarrow> (Raised TypeError, d)
      | Some pkg_price \<Rightarrow>
     (case insert_payment d2 new_id pkg_price ''Cash'' ''Unpaid'' None of
        Inl e \<Rightarrow> (Raised e, d)
      | Inr d3 \<Rightarrow> (Flash (Booking_created new_id) ''success'', d3)))))"
    using s rl vid pid fs by (simp add: create_booking_def require_login_def Let_def)
  from assms obtain d1 bid where ib: "?ib = Inr (d1, bid)"
    by (cases ?ib) (auto simp: run1)
  from assms obtain d2 where ih: "insert_history d1 bid fs t_h None 1 = Inr d2"
    by (cases "insert_history d1 bid fs t_h None 1") (auto simp: run1 ib)
  from assms obtain pr where pp: "package_price d2 pid = Some pr"
    by (cases "package_price d2 pid") (auto simp: run1 ib ih)
  from assms obtain d3 where ip: "insert_payment d2 bid pr ''Cash'' ''Unpaid'' None = Inr d3"
    by (cases "insert_payment d2 bid pr ''Cash'' ''Unpaid'' None") (auto simp: run1 ib ih pp)
  have res: "snd ?r = d3" by (simp add: run1 ib ih pp ip)
  note b = insert_booking_InrD [OF ib]
  from ih obtain hid where d2: "d2 = d1\<lparr>booking_stage_history := booking_stage_history d1 @
             [\<lparr>history_id = hid, h_booking_id = bid, h_stage_id = fs, start_time = t_h,
               end_time = None, updated_by_staff_id = 1\<rparr>],
            seq_history := hid\<rparr>"
    by (rule insert_history_InrE)
  from ip obtain pay_id where d3: "d3 = d2\<lparr>payments := payments d2 @
             [\<lparr>payment_id = pay_id, p_booking_id = bid, amount = pr, pay_method = ''Cash'',
               payment_status = ''Unpaid'', paid_at = None\<rparr>],
            seq_payments := pay_id\<rparr>"
    by (rule insert_payment_InrE)
  show thesis
  proof (rule that [of "\<lparr>booking_id = bid, b_customer_id = s_user_id s, b_vehicle_id = vid,
               b_package_id = pid, booking_datetime = t_b, scheduled_datetime = ?sched,
               status = ''Booked'', current_stage_id = Some fs,
               b_notes = strip_or_none (form_get notes_f [])\<rparr>"
        "\<lparr>history_id = hid, h_booking_id = bid, h_stage_id = fs, start_time = t_h,
               end_time = None, updated_by_staff_id = 1\<rparr>" fs])
  qed (simp_all add: res d3 d2 b(2) b(1) [symmetric] fs)
qed

lemma ledger_ok_create_booking:
  assumes "ledger_ok d"
  shows "ledger_ok (snd (create_booking sess veh_f pkg_f sched_f notes_f t_b t_h d))"
proof (cases "snd (create_booking sess veh_f pkg_f sched_f notes_f t_b t_h d) = d")
  case True
  with assms show ?thesis by simp
next
  case False
  then obtain row hrow fs where c:
    "bookings (snd (create_booking sess veh_f pkg_f sched_f notes_f t_b t_h d)) =
       bookings d @ [row]"
    "booking_stage_history (snd (create_booking sess veh_f pkg_f sched_f notes_f t_b t_h d)) =
       booking_stage_history d @ [hrow]"
    "booking_id row = next_id (seq_bookings d) (map booking_id (bookings d))"
    "current_stage_id row = Some fs"
    "h_booking_id hrow = booking_id row" "h_stage_id hrow = fs" "end_time hrow = None"
    by (rule create_booking_changes)
  have fresh: "\<not> booking_exists d (booking_id row)"
    unfolding c(3) by (rule next_booking_id_fresh)
  show ?thesis
    by (rule ledger_ok_add_booking [OF assms fresh c(1) refl c(4) c(2) c(5) c(6) c(7)])
qed

lemma ledger_ok_staff_update_stage:
  assumes "ledger_ok d"
  shows "ledger_ok (snd (staff_update_stage sess bid stage_f (Some ''on'') t_c t_o d))"
proof (cases "snd (staff_update_stage sess bid stage_f (Some ''on'') t_c t_o d) = d")
  case True
  with assms show ?thesis by simp
next
  case False
  then obtain s n cur ord where h: "sess = Some s" "s_role s = ''Staff'' \<or> s_role s = ''Admin''"
    "stage_f = Num n" "select_current_stage d bid = Some cur"
    "stage_order_of d n = Some ord" "user_exists d (s_user_id s)"
    "sqlite_int bid" "sqlite_int n" "sqlite_int (s_user_id s)"
    using staff_update_stage_changes by blast
  show ?thesis
    unfolding h(3) staff_update_stage_success [OF h(1,2,6,4,5,7,8,9)]
    by (rule ledger_ok_advance [OF assms h(4), where
          st = "if max_stage_order d = Some ord then ''Completed'' else ''InProgress''"
          and n = n and t = t_c and hrow = "\<lparr>history_id = next_id (seq_history d)
            (map history_id (booking_stage_history
               (close_previous d (Some ''on'' = Some ''on'') cur t_c bid))),
            h_booking_id = bid, h_stage_id = n, start_time = t_o, end_time = None,
            updated_by_staff_id = s_user_id s\<rparr>"])
       simp_all
qed

section \<open>Lookups by key on tables that satisfy their primary key\<close>

lemma find_by_key:
  assumes "distinct (map key xs)" and "x \<in> set xs"
  shows "find (\<lambda>y. key y = key x) xs = Some x"
  using assms
proof (induction xs)
  case Nil
  then show ?case by simp
next
  case (Cons a xs)
  show ?case
  proof (cases "a = x")
    case True
    then show ?thesis by simp
  next
    case False
    with Cons.prems have in_xs: "x \<in> set xs" by simp
    with Cons.prems have "key a \<noteq> key x" by (auto simp: image_iff)
    with Cons.IH Cons.prems in_xs show ?thesis by simp
  qed
qed

lemma stage_order_of_row:
  assumes "distinct (map stage_id (service_stages d))" and "st \<in> set (service_stages d)"
  shows "stage_order_of d (stage_id st) = Some (stage_order st)"
  using find_by_key [OF assms] by (simp add: stage_order_of_def)

lemma package_price_row:
  assumes "distinct (map package_id (packages d))" and "pkg \<in> set (packages d)"
  shows "package_price d (package_id pkg) = Some (price pkg)"
  using find_by_key [OF assms] by (simp add: package_price_def)

lemma select_current_stage_row_key:
  assumes "distinct (map booking_id (bookings d))" and "b \<in> set (bookings d)"
  shows "select_current_stage d (booking_id b) = Some (current_stage_id b)"
  using find_by_key [OF assms] by (simp add: select_current_stage_def)

lemma min_order_stage_exists: "ss \<noteq> [] \<Longrightarrow> \<exists>m. min_order_stage ss = Some m"
  by (cases ss) (auto split: option.splits)

lemma max_stage_order_row:
  assumes "st \<in> set (service_stages d)"
  shows "max_stage_order d = Some (stage_order st) \<longleftrightarrow>
     (\<forall>x \<in> set (service_stages d). stage_order x \<le> stage_order st)"
proof -
  from assms have ne: "service_stages d \<noteq> []" by auto
  let ?S = "stage_order ` set (service_stages d)"
  have fin: "finite ?S" and mem: "stage_order st \<in> ?S" using assms by auto
  have "Max ?S = stage_order st \<longleftrightarrow> (\<forall>y \<in> ?S. y \<le> stage_order st)"
  proof
    assume "Max ?S = stage_order st"
    then show "\<forall>y \<in> ?S. y \<le> stage_order st" using Max_ge [OF fin] by auto
  next
    assume "\<forall>y \<in> ?S. y \<le> stage_order st"
    then show "Max ?S = stage_order st" using mem fin by (intro Max_eqI) auto
  qed
  then show ?thesis by (auto simp: max_stage_order_Max [OF ne])
qed

lemma at_last_stage_rows:
  assumes pk: "distinct (map stage_id (service_stages d))"
  shows "at_last_stage d b = on_last_stage d b"
proof
  assume "at_last_stage d b"
  then obtain sid ord where c: "current_stage_id b = Some sid"
    "stage_order_of d sid = Some ord" "max_stage_order d = Some ord"
    by (auto simp: at_last_stage_def split: option.splits)
  from c(2) obtain st where st: "st \<in> set (service_stages d)" "stage_id st = sid"
    "stage_order st = ord"
    by (auto simp: stage_order_of_def find_Some_iff in_set_conv_nth)
  from c(3) st(3) have "max_stage_order d = Some (stage_order st)" by simp
  then have "\<forall>x \<in> set (service_stages d). stage_order x \<le> stage_order st"
    by (simp only: max_stage_order_row [OF st(1)])
  with st c(1) show "on_last_stage d b" by (auto simp: on_last_stage_def)
next
  assume "on_last_stage d b"
  then obtain st where st: "st \<in> set (service_stages d)"
    "current_stage_id b = Some (stage_id st)"
    "\<forall>x \<in> set (service_stages d). stage_order x \<le> stage_order st"
    by (auto simp: on_last_stage_def)
  from st(1,3) have "max_stage_order d = Some (stage_order st)"
    by (simp add: max_stage_order_row)
  with st show "at_last_stage d b"
    by (simp add: at_last_stage_def stage_order_of_row [OF pk st(1)])
qed

lemma first_stage_not_last_rows:
  assumes pk: "distinct (map stage_id (service_stages d))" and "stage_orders_differ d"
  shows "first_stage_not_last d"
proof (cases "min_order_stage (service_stages d)")
  case None
  then show ?thesis by (simp add: first_stage_not_last_def first_stage_def)
next
  case (Some m)
  then have m: "m \<in> set (service_stages d)" by (rule min_order_stage_mem)
  from Some have least: "\<forall>x \<in> set (service_stages d). stage_order m \<le> stage_order x"
    by (rule min_order_stage_least)
  have "max_stage_order d \<noteq> Some (stage_order m)"
  proof
    assume "max_stage_order d = Some (stage_order m)"
    with m have "\<forall>x \<in> set (service_stages d). stage_order x \<le> stage_order m"
      by (simp add: max_stage_order_row)
    with least have "\<forall>x \<in> set (service_stages d). stage_order x = stage_order m"
      by (auto intro: antisym)
    with assms(2) show False by (auto simp: stage_orders_differ_def)
  qed
  with Some show ?thesis
    by (simp add: first_stage_not_last_def first_stage_def stage_order_of_row [OF pk m])
qed

lemma int64_keysD:
  assumes "int64_keys d"
  shows "user_exists d u \<Longrightarrow> sqlite_int u" and "vehicle_exists d v \<Longrightarrow> sqlite_int v"
    and "package_exists d p \<Longrightarrow> sqlite_int p" and "stage_exists d s \<Longrightarrow> sqlite_int s"
    and "booking_exists d b \<Longrightarrow> sqlite_int b"
    and "\<exists>p \<in> set (payments d). p_booking_id p = b \<Longrightarrow> sqlite_int b"
  using assms
  by (auto simp: int64_keys_def user_exists_def vehicle_exists_def package_exists_def
        stage_exists_def booking_exists_def)

section \<open>One open history entry per booking\<close>

lemma ledger_ok_handle:
  assumes "ledger_ok d" and "closes_previous r"
  shows "ledger_ok (snd (handle r d))"
proof (cases r)
  case (CreateBooking sess veh pkg sched nts t_b t_h)
  with assms(1) show ?thesis by (simp add: ledger_ok_create_booking)
next
  case (AdvanceStage sess bid stg ep t_c t_o)
  with assms show ?thesis by (simp add: ledger_ok_staff_update_stage)
qed

lemma ledger_ok_run:
  assumes "ledger_ok d" and "\<forall>r \<in> set rs. closes_previous r"
  shows "ledger_ok (run rs d)"
  using assms
proof (induction rs arbitrary: d)
  case Nil
  then show ?case by simp
next
  case (Cons r rs)
  from Cons.prems have "ledger_ok (snd (handle r d))" by (simp add: ledger_ok_handle)
  with Cons.prems show ?case by (simp add: Cons.IH)
qed

lemma ledger_ok_fresh:
  "bookings d = [] \<Longrightarrow> booking_stage_history d = [] \<Longrightarrow> ledger_ok d"
  by (simp add: ledger_ok_def)

text \<open>
  C1, as stated: after any sequence of stage updates, whatever the value of
  \<open>close_previous\<close>, a booking has at most one open history entry. A stage update
  without the box \<open>end_prev\<close> leaves the previous entry open and adds one: the booking
  of Ali, moved to Drying without closing, has two open entries.
\<close>

theorem stage_update_without_closing_leaves_two_open:
  "bookings (snd (staff_update_stage bilal 1 (Num 2) None ''2024-01-03 09:30:00''
       ''2024-01-03 09:30:01'' booked_db)) =
     [\<lparr>booking_id = 1, b_customer_id = 2, b_vehicle_id = 1, b_package_id = 2,
       booking_datetime = ''2024-01-03 09:00:00'', scheduled_datetime = None,
       status = ''InProgress'', current_stage_id = Some 2, b_notes = None\<rparr>] \<and>
   open_entries (snd (staff_update_stage bilal 1 (Num 2) None ''2024-01-03 09:30:00''
       ''2024-01-03 09:30:01'' booked_db)) 1 =
     [\<lparr>history_id = 1, h_booking_id = 1, h_stage_id = 1,
       start_time = ''2024-01-03 09:00:01'', end_time = None, updated_by_staff_id = 1\<rparr>,
      \<lparr>history_id = 2, h_booking_id = 1, h_stage_id = 2,
       start_time = ''2024-01-03 09:30:01'', end_time = None, updated_by_staff_id = 4\<rparr>]"
  by code_simp

text \<open>
  C1, amended: start from a store whose ledger is in order (as it is when there are
  no bookings yet) and run any sequence of booking requests and stage updates in which
  every stage update has the box \<open>end_prev\<close> ticked. Then every booking id has at most
  one open history entry, and every booking whose status is Booked, InProgress or
  Completed has exactly one, on its current stage.
\<close>

theorem one_open_entry_when_closing:
  assumes "ledger_ok d" and "\<forall>r \<in> set rs. closes_previous r"
  shows "(\<forall>x. length (open_entries (run rs d) x) \<le> 1)
    \<and> (\<forall>b \<in> set (bookings (run rs d)).
          status b \<in> set live_statuses \<longrightarrow>
          (\<exists>h. open_entries (run rs d) (booking_id b) = [h]
             \<and> current_stage_id b = Some (h_stage_id h)))"
proof -
  let ?d = "run rs d"
  from assms have ok: "ledger_ok ?d" by (rule ledger_ok_run)
  have "length (open_entries ?d x) \<le> 1" for x
  proof (cases "booking_exists ?d x")
    case True
    then obtain b where "b \<in> set (bookings ?d)" "booking_id b = x"
      by (auto simp: booking_exists_def)
    with ok show ?thesis by (auto simp: ledger_ok_def one_open_entry_def)
  next
    case False
    with ok have "open_entries ?d x = []" by (rule ledger_ok_no_orphans)
    then show ?thesis by simp
  qed
  moreover have "\<exists>h. open_entries ?d (booking_id b) = [h]
             \<and> current_stage_id b = Some (h_stage_id h)"
    if "b \<in> set (bookings ?d)" "status b \<in> set live_statuses" for b
  proof -
    from ok that have "map (\<lambda>h. Some (h_stage_id h)) (open_entries ?d (booking_id b))
        = [current_stage_id b]"
      by (simp add: ledger_ok_def one_open_entry_def)
    then show ?thesis by (cases "open_entries ?d (booking_id b)") auto
  qed
  ultimately show ?thesis by blast
qed

theorem one_open_entry_when_closing_witness:
  "bookings (run busy_day demo_db) =
     [\<lparr>booking_id = 1, b_customer_id = 2, b_vehicle_id = 1, b_package_id = 2,
       booking_datetime = ''2024-01-03 09:00:00'', scheduled_datetime = None,
       status = ''Completed'', current_stage_id = Some 4, b_notes = None\<rparr>] \<and>
   open_entries (run busy_day demo_db) 1 =
     [\<lparr>history_id = 3, h_booking_id = 1, h_stage_id = 4,
       start_time = ''2024-01-03 10:00:01'', end_time = None, updated_by_staff_id = 4\<rparr>] \<and>
   length (open_entries (run busy_day demo_db) 1) \<le> 1"
proof -
  have h: "ledger_ok demo_db" "\<forall>r \<in> set busy_day. closes_previous r"
    by code_simp+
  have e: "bookings (run busy_day demo_db) =
     [\<lparr>booking_id = 1, b_customer_id = 2, b_vehicle_id = 1, b_package_id = 2,
       booking_datetime = ''2024-01-03 09:00:00'', scheduled_datetime = None,
       status = ''Completed'', current_stage_id = Some 4, b_notes = None\<rparr>]"
    "open_entries (run busy_day demo_db) 1 =
     [\<lparr>history_id = 3, h_booking_id = 1, h_stage_id = 4,
       start_time = ''2024-01-03 10:00:01'', end_time = None, updated_by_staff_id = 4\<rparr>]"
    by code_simp+
  from one_open_entry_when_closing [OF h] have "length (open_entries (run busy_day demo_db) 1) \<le> 1"
    by blast
  with e show ?thesis by simp
qed

section \<open>Whose vehicle a customer may book\<close>

text \<open>
  C2: a booking request for a vehicle of another customer should fail and write
  nothing. \<open>create_booking\<close> never reads the owner of the vehicle: the only check on
  \<open>vehicle_id\<close> is the foreign key of the \<open>bookings\<close> table. Ali (user 2) books
  vehicle 2, which belongs to Sara (user 3), and the booking, its history entry and its
  payment are committed.
\<close>

theorem customer_books_vehicle_of_another:
  "ali = Some \<lparr>s_user_id = 2, s_full_name = ''Ali'', s_role = ''Customer''\<rparr> \<and>
   vehicles demo_db =
     [\<lparr>vehicle_id = 1, v_customer_id = 2, plate_no = ''LEA-1'', v_make = None,
       v_model = None, v_color = None, vehicle_type = None\<rparr>,
      \<lparr>vehicle_id = 2, v_customer_id = 3, plate_no = ''LEB-2'', v_make = None,
       v_model = None, v_color = None, vehicle_type = None\<rparr>] \<and>
   create_booking ali (Num 2) (Num 2) None None ''2024-01-03 09:00:00''
     ''2024-01-03 09:00:01'' demo_db =
   (Flash (Booking_created 1) ''success'',
    demo_db\<lparr>bookings :=
        [\<lparr>booking_id = 1, b_customer_id = 2, b_vehicle_id = 2, b_package_id = 2,
          booking_datetime = ''2024-01-03 09:00:00'', scheduled_datetime = None,
          status = ''Booked'', current_stage_id = Some 1, b_notes = None\<rparr>],
      seq_bookings := 1,
      booking_stage_history :=
        [\<lparr>history_id = 1, h_booking_id = 1, h_stage_id = 1,
          start_time = ''2024-01-03 09:00:01'', end_time = None, updated_by_staff_id = 1\<rparr>],
      seq_history := 1,
      payments :=
        [\<lparr>payment_id = 1, p_booking_id = 1, amount = 800, pay_method = ''Cash'',
          payment_status = ''Unpaid'', paid_at = None\<rparr>],
      seq_payments := 1\<rparr>)"
  by code_simp

theorem customer_books_vehicle_of_another_witness:
  "map (\<lambda>v. (vehicle_id v, v_customer_id v)) (vehicles demo_db) = [(1, 2), (2, 3)] \<and>
   map (\<lambda>b. (b_customer_id b, b_vehicle_id b))
     (bookings (snd (create_booking ali (Num 2) (Num 2) None None ''2024-01-03 09:00:00''
        ''2024-01-03 09:00:01'' demo_db))) = [(2, 2)]"
  using customer_books_vehicle_of_another by simp

section \<open>What a stage update writes\<close>

lemma close_previous_history:
  "booking_stage_history (close_previous d e cur t bid) =
     map (\<lambda>h. if e \<and> h_booking_id h = bid \<and> Some (h_stage_id h) = cur \<and> end_time h = None
              then h\<lparr>end_time := Some t\<rparr> else h)
         (booking_stage_history d)"
proof (cases cur)
  case None
  then show ?thesis by (simp add: close_previous_def)
next
  case (Some c)
  then show ?thesis
    by (cases e) (auto simp: close_previous_def close_history_def)
qed

text \<open>
  C3: a stage update by a logged-in Staff or Admin user, on an existing booking and
  to an existing stage (on tables that satisfy their primary keys and hold SQLite
  integers), succeeds. Every booking row of that id gets the new stage as its current
  stage, and the status Completed when the \<open>stage_order\<close> of the new stage's row is
  the maximum of the \<open>stage_order\<close> column, InProgress otherwise. The history gains
  one row at its end, for the new stage, starting at the reading \<open>t_open\<close> of the
  clock, with no end time, attributed to the user of the session; the rows before it
  are the old rows, where the open entries of the booking on its current stage got the
  end time \<open>t_close\<close> if the box \<open>end_prev\<close> was ticked.
\<close>

theorem staff_update_stage_effect:
  assumes sess: "sess = Some s" "s_role s = ''Staff'' \<or> s_role s = ''Admin''"
    and actor: "user_exists d (s_user_id s)"
    and booking: "b \<in> set (bookings d)" "booking_id b = bid"
    and stage: "st \<in> set (service_stages d)" "stage_id st = n"
    and pk: "distinct (map booking_id (bookings d))" "distinct (map stage_id (service_stages d))"
    and ints: "int64_keys d"
  shows "\<exists>d'.
      staff_update_stage sess bid (Num n) end_prev_f t_close t_open d =
        (Flash Stage_updated ''success'', d')
    \<and> bookings d' =
        map (\<lambda>x. if booking_id x = bid
                 then x\<lparr>current_stage_id := Some (stage_id st),
                        status := (if stage_order st = Max (stage_order ` set (service_stages d))
                                   then ''Completed'' else ''InProgress'')\<rparr>
                 else x) (bookings d)
    \<and> butlast (booking_stage_history d') =
        map (\<lambda>h. if end_prev_f = Some ''on'' \<and> h_booking_id h = bid
                    \<and> Some (h_stage_id h) = current_stage_id b \<and> end_time h = None
                 then h\<lparr>end_time := Some t_close\<rparr> else h)
            (booking_stage_history d)
    \<and> h_booking_id (last (booking_stage_history d')) = bid
    \<and> h_stage_id (last (booking_stage_history d')) = stage_id st
    \<and> start_time (last (booking_stage_history d')) = t_open
    \<and> end_time (last (booking_stage_history d')) = None
    \<and> updated_by_staff_id (last (booking_stage_history d')) = s_user_id s"
proof -
  have sel: "select_current_stage d bid = Some (current_stage_id b)"
    using select_current_stage_row_key [OF pk(1) booking(1)] booking(2) by simp
  have ord: "stage_order_of d n = Some (stage_order st)"
    using stage_order_of_row [OF pk(2) stage(1)] stage(2) by simp
  have "booking_exists d bid" and "stage_exists d n"
    using booking stage by (auto simp: booking_exists_def stage_exists_def)
  with actor have i: "sqlite_int bid" "sqlite_int n" "sqlite_int (s_user_id s)"
    by (simp_all add: int64_keysD [OF ints])
  from stage(1) have "service_stages d \<noteq> []" by auto
  then have mx: "max_stage_order d = Some (Max (stage_order ` set (service_stages d)))"
    by (rule max_stage_order_Max)
  show ?thesis
    unfolding staff_update_stage_success [OF sess actor sel ord i]
    by (simp add: mx close_previous_history stage(2) eq_commute [of "stage_order st"])
qed

theorem staff_update_stage_effect_witness:
  "staff_update_stage bilal 1 (Num 13) (Some ''on'') ''2024-01-03 10:00:00''
     ''2024-01-03 10:00:01'' renumbered_booked_db =
   (Flash Stage_updated ''success'',
    renumbered_booked_db\<lparr>bookings :=
        [\<lparr>booking_id = 1, b_customer_id = 2, b_vehicle_id = 1, b_package_id = 3,
          booking_datetime = ''2024-01-03 09:00:00'', scheduled_datetime = None,
          status = ''Completed'', current_stage_id = Some 13, b_notes = None\<rparr>],
      booking_stage_history :=
        [\<lparr>history_id = 1, h_booking_id = 1, h_stage_id = 12,
          start_time = ''2024-01-03 09:00:01'', end_time = Some ''2024-01-03 10:00:00'',
          updated_by_staff_id = 1\<rparr>,
         \<lparr>history_id = 2, h_booking_id = 1, h_stage_id = 13,
          start_time = ''2024-01-03 10:00:01'', end_time = None,
          updated_by_staff_id = 4\<rparr>],
      seq_history := 2\<rparr>) \<and>
   bookings (snd (staff_update_stage bilal 1 (Num 14) (Some ''on'') ''2024-01-03 10:00:00''
     ''2024-01-03 10:00:01'' renumbered_booked_db)) =
     [\<lparr>booking_id = 1, b_customer_id = 2, b_vehicle_id = 1, b_package_id = 3,
       booking_datetime = ''2024-01-03 09:00:00'', scheduled_datetime = None,
       status = ''InProgress'', current_stage_id = Some 14, b_notes = None\<rparr>]"
proof -
  have h: "bilal = Some \<lparr>s_user_id = 4, s_full_name = ''Bilal'', s_role = ''Staff''\<rparr>"
    "user_exists renumbered_booked_db 4"
    "\<lparr>booking_id = 1, b_customer_id = 2, b_vehicle_id = 1, b_package_id = 3,
       booking_datetime = ''2024-01-03 09:00:00'', scheduled_datetime = None,
       status = ''Booked'', current_stage_id = Some 12, b_notes = None\<rparr>
     \<in> set (bookings renumbered_booked_db)"
    "\<lparr>stage_id = 13, stage_name = ''Completed'', stage_order = 40\<rparr>
     \<in> set (service_stages renumbered_booked_db)"
    "distinct (map booking_id (bookings renumbered_booked_db))"
    "distinct (map stage_id (service_stages renumbered_booked_db))"
    "int64_keys renumbered_booked_db"
    by code_simp+
  have e: "staff_update_stage bilal 1 (Num 13) (Some ''on'') ''2024-01-03 10:00:00''
     ''2024-01-03 10:00:01'' renumbered_booked_db =
   (Flash Stage_updated ''success'',
    renumbered_booked_db\<lparr>bookings :=
        [\<lparr>booking_id = 1, b_customer_id = 2, b_vehicle_id = 1, b_package_id = 3,
          booking_datetime = ''2024-01-03 09:00:00'', scheduled_datetime = None,
          status = ''Completed'', current_stage_id = Some 13, b_notes = None\<rparr>],
      booking_stage_history :=
        [\<lparr>history_id = 1, h_booking_id = 1, h_stage_id = 12,
          start_time = ''2024-01-03 09:00:01'', end_time = Some ''2024-01-03 10:00:00'',
          updated_by_staff_id = 1\<rparr>,
         \<lparr>history_id = 2, h_booking_id = 1, h_stage_id = 13,
          start_time = ''2024-01-03 10:00:01'', end_time = None,
          updated_by_staff_id = 4\<rparr>],
      seq_history := 2\<rparr>)"
    "bookings (snd (staff_update_stage bilal 1 (Num 14) (Some ''on'') ''2024-01-03 10:00:00''
     ''2024-01-03 10:00:01'' renumbered_booked_db)) =
     [\<lparr>booking_id = 1, b_customer_id = 2, b_vehicle_id = 1, b_package_id = 3,
       booking_datetime = ''2024-01-03 09:00:00'', scheduled_datetime = None,
       status = ''InProgress'', current_stage_id = Some 14, b_notes = None\<rparr>]"
    by code_simp+
  from staff_update_stage_effect [where sess = bilal and d = renumbered_booked_db
      and s = "\<lparr>s_user_id = 4, s_full_name = ''Bilal'', s_role = ''Staff''\<rparr>"
      and b = "\<lparr>booking_id = 1, b_customer_id = 2, b_vehicle_id = 1, b_package_id = 3,
       booking_datetime = ''2024-01-03 09:00:00'', scheduled_datetime = None,
       status = ''Booked'', current_stage_id = Some 12, b_notes = None\<rparr>"
      and st = "\<lparr>stage_id = 13, stage_name = ''Completed'', stage_order = 40\<rparr>"
      and bid = 1 and n = 13 and end_prev_f = "Some ''on''"
      and t_close = "''2024-01-03 10:00:00''" and t_open = "''2024-01-03 10:00:01''"] h e
  show ?thesis by simp
qed

section \<open>The status follows the stage\<close>

lemma same_stages_queries:
  assumes "service_stages d' = service_stages d"
  shows "stage_order_of d' = stage_order_of d" and "max_stage_order d' = max_stage_order d"
    and "first_stage d' = first_stage d"
  using assms by (simp_all add: fun_eq_iff stage_order_of_def max_stage_order_def first_stage_def)

lemma at_last_stage_same_stages:
  assumes "service_stages d' = service_stages d"
  shows "at_last_stage d' b = at_last_stage d b"
  unfolding at_last_stage_def same_stages_queries [OF assms] ..

lemma first_stage_not_last_same_stages:
  assumes "service_stages d' = service_stages d"
  shows "first_stage_not_last d' = first_stage_not_last d"
  unfolding first_stage_not_last_def same_stages_queries [OF assms] ..

lemma create_booking_same_stages:
  "service_stages (snd (create_booking sess veh_f pkg_f sched_f notes_f t_b t_h d)) =
     service_stages d"
proof (cases "snd (create_booking sess veh_f pkg_f sched_f notes_f t_b t_h d) = d")
  case True
  then show ?thesis by simp
next
  case False
  then show ?thesis by (rule create_booking_changes)
qed

lemma staff_update_stage_same_stages:
  "service_stages (snd (staff_update_stage sess bid stage_f ep t_c t_o d)) = service_stages d"
proof (cases "snd (staff_update_stage sess bid stage_f ep t_c t_o d) = d")
  case True
  then show ?thesis by simp
next
  case False
  then obtain s n cur ord where h: "sess = Some s" "s_role s = ''Staff'' \<or> s_role s = ''Admin''"
    "stage_f = Num n" "select_current_stage d bid = Some cur"
    "stage_order_of d n = Some ord" "user_exists d (s_user_id s)"
    "sqlite_int bid" "sqlite_int n" "sqlite_int (s_user_id s)"
    using staff_update_stage_changes by blast
  show ?thesis
    unfolding h(3) staff_update_stage_success [OF h(1,2,6,4,5,7,8,9)]
    by (simp add: close_previous_frame)
qed

lemma status_follows_stage_create_booking:
  assumes "status_follows_stage d" and "first_stage_not_last d"
  shows "status_follows_stage (snd (create_booking sess veh_f pkg_f sched_f notes_f t_b t_h d))"
proof (cases "snd (create_booking sess veh_f pkg_f sched_f notes_f t_b t_h d) = d")
  case True
  with assms show ?thesis by simp
next
  case False
  let ?d' = "snd (create_booking sess veh_f pkg_f sched_f notes_f t_b t_h d)"
  from False obtain row fs where c: "bookings ?d' = bookings d @ [row]"
    "service_stages ?d' = service_stages d"
    "status row = ''Booked''" "current_stage_id row = Some fs" "first_stage d = Some fs"
    by (rule create_booking_changes)
  have same: "at_last_stage ?d' b = at_last_stage d b" for b
    using c(2) by (rule at_last_stage_same_stages)
  from assms(2) c(5) have "\<not> at_last_stage d row"
    by (auto simp: first_stage_not_last_def at_last_stage_def c(4) split: option.splits)
  with assms(1) show ?thesis
    by (auto simp: status_follows_stage_def c(1) c(3) same)
qed

lemma status_follows_stage_staff_update_stage:
  assumes "status_follows_stage d"
  shows "status_follows_stage (snd (staff_update_stage sess bid stage_f ep t_c t_o d))"
proof (cases "snd (staff_update_stage sess bid stage_f ep t_c t_o d) = d")
  case True
  with assms show ?thesis by simp
next
  case False
  then obtain s n cur ord where h: "sess = Some s" "s_role s = ''Staff'' \<or> s_role s = ''Admin''"
    "stage_f = Num n" "select_current_stage d bid = Some cur"
    "stage_order_of d n = Some ord" "user_exists d (s_user_id s)"
    "sqlite_int bid" "sqlite_int n" "sqlite_int (s_user_id s)"
    using staff_update_stage_changes by blast
  let ?d' = "snd (staff_update_stage sess bid (Num n) ep t_c t_o d)"
  let ?st = "if max_stage_order d = Some ord then ''Completed'' else ''InProgress''"
  have bk: "bookings ?d' = map (\<lambda>b. if booking_id b = bid
      then b\<lparr>current_stage_id := Some n, status := ?st\<rparr> else b) (bookings d)"
    unfolding staff_update_stage_success [OF h(1,2,6,4,5,7,8,9)] by simp
  have same: "at_last_stage ?d' b = at_last_stage d b" for b
    by (rule at_last_stage_same_stages) (rule staff_update_stage_same_stages)
  have moved: "(status (b\<lparr>current_stage_id := Some n, status := ?st\<rparr>) = ''Completed'')
      = at_last_stage d (b\<lparr>current_stage_id := Some n, status := ?st\<rparr>)" for b
    by (simp add: at_last_stage_def h(5))
  have "(status b' = ''Completed'') = at_last_stage d b'" if "b' \<in> set (bookings ?d')" for b'
  proof -
    from that obtain b where b: "b \<in> set (bookings d)"
      "b' = (if booking_id b = bid then b\<lparr>current_stage_id := Some n, status := ?st\<rparr> else b)"
      unfolding bk by auto
    show ?thesis
    proof (cases "booking_id b = bid")
      case True
      with b(2) moved [of b] show ?thesis by simp
    next
      case False
      with b assms show ?thesis by (simp add: status_follows_stage_def)
    qed
  qed
  then show ?thesis unfolding h(3) by (simp add: status_follows_stage_def same)
qed

lemma status_follows_stage_run:
  assumes "status_follows_stage d" and "first_stage_not_last d"
  shows "status_follows_stage (run rs d)"
  using assms
proof (induction rs arbitrary: d)
  case Nil
  then show ?case by simp
next
  case (Cons r rs)
  have "status_follows_stage (snd (handle r d)) \<and> first_stage_not_last (snd (handle r d))"
  proof (cases r)
    case (CreateBooking sess veh pkg sched nts t_b t_h)
    with Cons.prems show ?thesis
      by (simp add: status_follows_stage_create_booking
            first_stage_not_last_same_stages [OF create_booking_same_stages])
  next
    case (AdvanceStage sess bid stg ep t_c t_o)
    with Cons.prems show ?thesis
      by (simp add: status_follows_stage_staff_update_stage
            first_stage_not_last_same_stages [OF staff_update_stage_same_stages])
  qed
  then show ?case by (simp add: Cons.IH)
qed

lemma run_same_stages: "service_stages (run rs d) = service_stages d"
proof (induction rs arbitrary: d)
  case Nil
  show ?case by simp
next
  case (Cons r rs)
  have "service_stages (snd (handle r d)) = service_stages d"
    by (cases r) (simp_all add: create_booking_same_stages staff_update_stage_same_stages)
  with Cons.IH [of "snd (handle r d)"] show ?case by simp
qed

lemma on_last_stage_fresh:
  "bookings d = [] \<Longrightarrow> \<forall>b \<in> set (bookings d). (status b = ''Completed'') = on_last_stage d b"
  by simp

text \<open>
  C4, as stated: a Completed booking never goes back to InProgress through a stage
  update. The status is computed from the new stage alone: the booking of Ali, Completed
  on the last stage, is moved back to Washing and is InProgress again.
\<close>

theorem completed_booking_moved_back_is_in_progress:
  "bookings completed_db =
     [\<lparr>booking_id = 1, b_customer_id = 2, b_vehicle_id = 1, b_package_id = 2,
       booking_datetime = ''2024-01-03 09:00:00'', scheduled_datetime = None,
       status = ''Completed'', current_stage_id = Some 4, b_notes = None\<rparr>] \<and>
   bookings (snd (staff_update_stage bilal 1 (Num 1) (Some ''on'') ''2024-01-03 11:00:00''
       ''2024-01-03 11:00:01'' completed_db)) =
     [\<lparr>booking_id = 1, b_customer_id = 2, b_vehicle_id = 1, b_package_id = 2,
       booking_datetime = ''2024-01-03 09:00:00'', scheduled_datetime = None,
       status = ''InProgress'', current_stage_id = Some 1, b_notes = None\<rparr>]"
  by code_simp

text \<open>
  C4, amended: on a stage table that satisfies its primary key and has stages of
  different orders, and from a store where it holds (as it does without bookings),
  every sequence of booking requests and stage updates keeps this: the status of a
  booking is Completed if and only if its current stage is a row of the stage table
  whose \<open>stage_order\<close> no other row exceeds. The status follows the stage in both
  directions, so a stage update away from the last stage takes a Completed booking
  back to InProgress.
\<close>

theorem completed_iff_on_last_stage:
  assumes pk: "distinct (map stage_id (service_stages d))"
    and differ: "stage_orders_differ d"
    and start: "\<forall>b \<in> set (bookings d). (status b = ''Completed'') = on_last_stage d b"
  shows "\<forall>b \<in> set (bookings (run rs d)).
           (status b = ''Completed'') = on_last_stage (run rs d) b"
proof -
  from start have "status_follows_stage d"
    by (simp add: status_follows_stage_def at_last_stage_rows [OF pk])
  moreover from pk differ have "first_stage_not_last d" by (rule first_stage_not_last_rows)
  ultimately have "status_follows_stage (run rs d)" by (rule status_follows_stage_run)
  moreover have "distinct (map stage_id (service_stages (run rs d)))"
    using pk by (simp add: run_same_stages)
  ultimately show ?thesis
    by (simp add: status_follows_stage_def at_last_stage_rows)
qed

theorem completed_iff_on_last_stage_witness:
  "bookings (run renumbered_day renumbered_db) =
     [\<lparr>booking_id = 1, b_customer_id = 2, b_vehicle_id = 1, b_package_id = 3,
       booking_datetime = ''2024-01-03 09:00:00'', scheduled_datetime = None,
       status = ''Completed'', current_stage_id = Some 13, b_notes = None\<rparr>] \<and>
   on_last_stage (run renumbered_day renumbered_db)
     \<lparr>booking_id = 1, b_customer_id = 2, b_vehicle_id = 1, b_package_id = 3,
       booking_datetime = ''2024-01-03 09:00:00'', scheduled_datetime = None,
       status = ''Completed'', current_stage_id = Some 13, b_notes = None\<rparr>"
proof -
  have h: "distinct (map stage_id (service_stages renumbered_db))"
    "stage_orders_differ renumbered_db"
    "\<forall>b \<in> set (bookings renumbered_db). (status b = ''Completed'') = on_last_stage renumbered_db b"
    by code_simp+
  have e: "bookings (run renumbered_day renumbered_db) =
     [\<lparr>booking_id = 1, b_customer_id = 2, b_vehicle_id = 1, b_package_id = 3,
       booking_datetime = ''2024-01-03 09:00:00'', scheduled_datetime = None,
       status = ''Completed'', current_stage_id = Some 13, b_notes = None\<rparr>]"
    by code_simp
  from completed_iff_on_last_stage [OF h, of renumbered_day] e show ?thesis by simp
qed

section \<open>What a booking request writes\<close>

text \<open>
  C5: a booking request of a logged-in customer for an existing vehicle of theirs and
  an existing package, on a seeded store (a stage exists, the user 1 that the first
  history entry is attributed to exists, the price of the package is not negative,
  every payment row belongs to a booking, the package table satisfies its primary key
  and the keys are SQLite integers), commits three rows at once: the booking, under a
  key larger than every key of the table, with status Booked and a stage of lowest
  order as its current stage; an open history entry for that stage, starting at the
  reading \<open>t_history\<close> of the clock; and the payment, whose amount is the \<open>price\<close> of
  the package's row, with status Unpaid and no \<open>paid_at\<close>. Nothing else of the
  database changes but the three key counters.
\<close>

theorem create_booking_effect:
  assumes sess: "sess = Some s" "s_role s = ''Customer''"
    and customer: "user_exists d (s_user_id s)"
    and vehicle: "\<exists>v \<in> set (vehicles d). vehicle_id v = vid \<and> v_customer_id v = s_user_id s"
    and package: "pkg \<in> set (packages d)" "package_id pkg = pid" "0 \<le> price pkg"
    and pk: "distinct (map package_id (packages d))"
    and stages: "service_stages d \<noteq> []"
    and system_user: "user_exists d 1"
    and payments_fk: "\<forall>p \<in> set (payments d). booking_exists d (p_booking_id p)"
    and ints: "int64_keys d"
  shows "\<exists>bid hid pay_id sched nts fs.
    create_booking sess (Num vid) (Num pid) sched_f notes_f t_booking t_history d =
     (Flash (Booking_created bid) ''success'',
      d\<lparr>bookings := bookings d @
           [\<lparr>booking_id = bid, b_customer_id = s_user_id s, b_vehicle_id = vid,
             b_package_id = pid, booking_datetime = t_booking, scheduled_datetime = sched,
             status = ''Booked'', current_stage_id = Some (stage_id fs), b_notes = nts\<rparr>],
         seq_bookings := bid,
         booking_stage_history := booking_stage_history d @
           [\<lparr>history_id = hid, h_booking_id = bid, h_stage_id = stage_id fs,
             start_time = t_history, end_time = None, updated_by_staff_id = 1\<rparr>],
         seq_history := hid,
         payments := payments d @
           [\<lparr>payment_id = pay_id, p_booking_id = bid, amount = price pkg,
             pay_method = ''Cash'', payment_status = ''Unpaid'', paid_at = None\<rparr>],
         seq_payments := pay_id\<rparr>)
    \<and> (\<forall>b \<in> set (bookings d). booking_id b < bid)
    \<and> fs \<in> set (service_stages d)
    \<and> (\<forall>x \<in> set (service_stages d). stage_order fs \<le> stage_order x)"
proof -
  from vehicle have ve: "vehicle_exists d vid" by (auto simp: vehicle_exists_def)
  from package(1,2) have pe: "package_exists d pid" by (auto simp: package_exists_def)
  have pr: "package_price d pid = Some (price pkg)"
    using package_price_row [OF pk package(1)] package(2) by simp
  from stages obtain fs where fs: "min_order_stage (service_stages d) = Some fs"
    using min_order_stage_exists by blast
  then have first: "first_stage d = Some (stage_id fs)" by (simp add: first_stage_def)
  have least: "\<forall>x \<in> set (service_stages d). stage_order fs \<le> stage_order x"
    using fs by (rule min_order_stage_least)
  have mem: "fs \<in> set (service_stages d)" using fs by (rule min_order_stage_mem)
  have i: "sqlite_int (s_user_id s)" "sqlite_int vid" "sqlite_int pid"
    using customer ve pe by (simp_all add: int64_keysD [OF ints])
  have larger: "\<forall>b \<in> set (bookings d).
      booking_id b < next_id (seq_bookings d) (map booking_id (bookings d))"
    by (simp add: next_id_fresh)
  show ?thesis
    unfolding create_booking_success
      [OF sess customer ve pr package(3) first system_user payments_fk i]
    using larger least mem by blast
qed


theorem create_booking_effect_witness:
  "create_booking ali (Num 1) (Num 2) None None ''2024-01-03 09:00:00''
     ''2024-01-03 09:00:01'' demo_db =
   (Flash (Booking_created 1) ''success'',
    demo_db\<lparr>bookings :=
        [\<lparr>booking_id = 1, b_customer_id = 2, b_vehicle_id = 1, b_package_id = 2,
          booking_datetime = ''2024-01-03 09:00:00'', scheduled_datetime = None,
          status = ''Booked'', current_stage_id = Some 1, b_notes = None\<rparr>],
      seq_bookings := 1,
      booking_stage_history :=
        [\<lparr>history_id = 1, h_booking_id = 1, h_stage_id = 1,
          start_time = ''2024-01-03 09:00:01'', end_time = None, updated_by_staff_id = 1\<rparr>],
      seq_history := 1,
      payments :=
        [\<lparr>payment_id = 1, p_booking_id = 1, amount = 800, pay_method = ''Cash'',
          payment_status = ''Unpaid'', paid_at = None\<rparr>],
      seq_payments := 1\<rparr>) \<and>
   create_booking ali (Num 1) (Num 3) None None ''2024-01-03 09:00:00''
     ''2024-01-03 09:00:01'' renumbered_db =
   (Flash (Booking_created 1) ''success'',
    renumbered_db\<lparr>bookings :=
        [\<lparr>booking_id = 1, b_customer_id = 2, b_vehicle_id = 1, b_package_id = 3,
          booking_datetime = ''2024-01-03 09:00:00'', scheduled_datetime = None,
          status = ''Booked'', current_stage_id = Some 12, b_notes = None\<rparr>],
      seq_bookings := 1,
      booking_stage_history :=
        [\<lparr>history_id = 1, h_booking_id = 1, h_stage_id = 12,
          start_time = ''2024-01-03 09:00:01'', end_time = None, updated_by_staff_id = 1\<rparr>],
      seq_history := 1,
      payments :=
        [\<lparr>payment_id = 1, p_booking_id = 1, amount = 1200, pay_method = ''Cash'',
          payment_status = ''Unpaid'', paid_at = None\<rparr>],
      seq_payments := 1\<rparr>)"
proof -
  let ?s = "\<lparr>s_user_id = 2, s_full_name = ''Ali'', s_role = ''Customer''\<rparr>"
  let ?pkg = "\<lparr>package_id = 2, package_name = ''Standard Wash'', price = 800,
       duration_minutes = 35, is_active = 1\<rparr>"
  have h: "ali = Some ?s" "s_role ?s = ''Customer''"
    "user_exists demo_db (s_user_id ?s)"
    "\<exists>v \<in> set (vehicles demo_db). vehicle_id v = 1 \<and> v_customer_id v = s_user_id ?s"
    "?pkg \<in> set (packages demo_db)" "package_id ?pkg = 2" "0 \<le> price ?pkg"
    "distinct (map package_id (packages demo_db))"
    "service_stages demo_db \<noteq> []"
    "user_exists demo_db 1"
    "\<forall>p \<in> set (payments demo_db). booking_exists demo_db (p_booking_id p)"
    "int64_keys demo_db"
    by code_simp+
  note inst = create_booking_effect [OF h, of None None "''2024-01-03 09:00:00''"
      "''2024-01-03 09:00:01''"]
  have e: "create_booking ali (Num 1) (Num 2) None None ''2024-01-03 09:00:00''
     ''2024-01-03 09:00:01'' demo_db =
   (Flash (Booking_created 1) ''success'',
    demo_db\<lparr>bookings :=
        [\<lparr>booking_id = 1, b_customer_id = 2, b_vehicle_id = 1, b_package_id = 2,
          booking_datetime = ''2024-01-03 09:00:00'', scheduled_datetime = None,
          status = ''Booked'', current_stage_id = Some 1, b_notes = None\<rparr>],
      seq_bookings := 1,
      booking_stage_history :=
        [\<lparr>history_id = 1, h_booking_id = 1, h_stage_id = 1,
          start_time = ''2024-01-03 09:00:01'', end_time = None, updated_by_staff_id = 1\<rparr>],
      seq_history := 1,
      payments :=
        [\<lparr>payment_id = 1, p_booking_id = 1, amount = 800, pay_method = ''Cash'',
          payment_status = ''Unpaid'', paid_at = None\<rparr>],
      seq_payments := 1\<rparr>)"
   "create_booking ali (Num 1) (Num 3) None None ''2024-01-03 09:00:00''
     ''2024-01-03 09:00:01'' renumbered_db =
   (Flash (Booking_created 1) ''success'',
    renumbered_db\<lparr>bookings :=
        [\<lparr>booking_id = 1, b_customer_id = 2, b_vehicle_id = 1, b_package_id = 3,
          booking_datetime = ''2024-01-03 09:00:00'', scheduled_datetime = None,
          status = ''Booked'', current_stage_id = Some 12, b_notes = None\<rparr>],
      seq_bookings := 1,
      booking_stage_history :=
        [\<lparr>history_id = 1, h_booking_id = 1, h_stage_id = 12,
          start_time = ''2024-01-03 09:00:01'', end_time = None, updated_by_staff_id = 1\<rparr>],
      seq_history := 1,
      payments :=
        [\<lparr>payment_id = 1, p_booking_id = 1, amount = 1200, pay_method = ''Cash'',
          payment_status = ''Unpaid'', paid_at = None\<rparr>],
      seq_payments := 1\<rparr>)"
    by code_simp+
  from inst e show ?thesis by - (rule conjI; assumption)
qed

section \<open>A stage update to a stage that does not exist\<close>

text \<open>
  C6: a stage update to a stage id that identifies no stage. The lookup of the
  booking is guarded (\<open>if not row\<close>) and answers with the message
  \<open>Booking not found.\<close>; the lookup of the stage is not: \<open>cur.fetchone()[0]\<close> on no
  row raises an uncaught \<open>TypeError\<close>. Nothing is committed in either case.
\<close>

theorem staff_update_stage_unknown_stage_raises:
  "staff_update_stage bilal 1 (Num 99) (Some ''on'') ''2024-01-03 10:00:00''
     ''2024-01-03 10:00:01'' booked_db = (Raised TypeError, booked_db) \<and>
   staff_update_stage bilal 99 (Num 2) (Some ''on'') ''2024-01-03 10:00:00''
     ''2024-01-03 10:00:01'' booked_db = (Flash Booking_not_found ''danger'', booked_db)"
  by code_simp

section \<open>Assigning staff to a booking\<close>

lemma insert_assignment_cases:
  "insert_assignment d bid sid t =
     (if \<not> sqlite_int bid \<or> \<not> sqlite_int sid then Inl OverflowError
      else if (bid, sid) \<in> set (assigned d) \<or> \<not> booking_exists d bid \<or> \<not> user_exists d sid
      then Inl IntegrityError
      else Inr (d\<lparr>booking_staff_assignment := booking_staff_assignment d @
                  [\<lparr>a_booking_id = bid, staff_id = sid, assigned_at = t\<rparr>]\<rparr>))"
  by (auto simp: insert_assignment_def assigned_def assignment_key_def image_iff)





lemma count_list_distinct: "distinct xs \<Longrightarrow> x \<in> set xs \<Longrightarrow> count_list xs x = 1"
  by (induction xs) auto

text \<open>
  C8: assigning one existing user to one existing booking twice. On a table that
  satisfies its primary key, in a store whose keys are SQLite integers, the table
  holds exactly one row for the pair after the first request and after the second;
  the second request succeeds and leaves the database as the first one left it.
\<close>

theorem staff_assign_idempotent:
  assumes staff: "require_staff sess"
    and booking: "booking_exists d bid" and user: "user_exists d sid"
    and pk: "distinct (assigned d)"
    and ints: "int64_keys d"
  shows "\<exists>d1.
      snd (staff_assign sess (Num bid) [Num sid] clock1 d) = d1
    \<and> staff_assign sess (Num bid) [Num sid] clock2 d1 = (Flash Staff_assigned ''success'', d1)
    \<and> count_list (assigned d1) (bid, sid) = 1"
proof (cases "(bid, sid) \<in> set (assigned d)")
  case True
  have i: "sqlite_int bid" "sqlite_int sid"
    using booking user by (simp_all add: int64_keysD [OF ints])
  from True have noop: "\<And>c. staff_assign sess (Num bid) [Num sid] c d =
      (Flash Staff_assigned ''success'', d)"
    using staff i by (simp add: staff_assign_def insert_assignment_cases)
  from pk True have "count_list (assigned d) (bid, sid) = 1"
    by (rule count_list_distinct)
  with noop show ?thesis by simp
next
  case False
  have i: "sqlite_int bid" "sqlite_int sid"
    using booking user by (simp_all add: int64_keysD [OF ints])
  let ?d1 = "d\<lparr>booking_staff_assignment := booking_staff_assignment d @
               [\<lparr>a_booking_id = bid, staff_id = sid, assigned_at = clock1 0\<rparr>]\<rparr>"
  from False staff booking user i
  have first: "staff_assign sess (Num bid) [Num sid] clock1 d =
      (Flash Staff_assigned ''success'', ?d1)"
    by (simp add: staff_assign_def insert_assignment_cases)
  have a1: "assigned ?d1 = assigned d @ [(bid, sid)]"
    by (simp add: assigned_def assignment_key_def)
  have second: "staff_assign sess (Num bid) [Num sid] clock2 ?d1 =
      (Flash Staff_assigned ''success'', ?d1)"
    using staff i by (simp add: staff_assign_def insert_assignment_cases a1)
  from False have "count_list (assigned ?d1) (bid, sid) = 1"
    by (simp add: a1)
  with first second show ?thesis by simp
qed

theorem staff_assign_idempotent_witness:
  "snd (staff_assign bilal (Num 1) [Num 4] noon booked_db) =
     booked_db\<lparr>booking_staff_assignment :=
       [\<lparr>a_booking_id = 1, staff_id = 4, assigned_at = ''2024-01-03 12:00:00''\<rparr>]\<rparr> \<and>
   staff_assign bilal (Num 1) [Num 4] noon
     (booked_db\<lparr>booking_staff_assignment :=
       [\<lparr>a_booking_id = 1, staff_id = 4, assigned_at = ''2024-01-03 12:00:00''\<rparr>]\<rparr>) =
   (Flash Staff_assigned ''success'',
    booked_db\<lparr>booking_staff_assignment :=
       [\<lparr>a_booking_id = 1, staff_id = 4, assigned_at = ''2024-01-03 12:00:00''\<rparr>]\<rparr>)"
proof -
  have h: "require_staff bilal" "booking_exists booked_db 1" "user_exists booked_db 4"
    "distinct (assigned booked_db)" "int64_keys booked_db"
    by code_simp+
  have e: "snd (staff_assign bilal (Num 1) [Num 4] noon booked_db) =
     booked_db\<lparr>booking_staff_assignment :=
       [\<lparr>a_booking_id = 1, staff_id = 4, assigned_at = ''2024-01-03 12:00:00''\<rparr>]\<rparr>"
    by code_simp
  from staff_assign_idempotent [OF h, of noon noon] e
  show ?thesis by simp
qed

section \<open>Recording a payment\<close>

text \<open>
  C9, as stated: every payment update on a booking with a payment row overwrites
  method and status. The columns are CHECKed: a method outside Cash, Card and Online
  (or a status outside the four payment statuses, or a missing field) makes the UPDATE
  raise \<open>IntegrityError\<close>, and the row keeps its method Cash and its status Unpaid.
\<close>

theorem staff_update_payment_rejects_unknown_method:
  "payments booked_db =
     [\<lparr>payment_id = 1, p_booking_id = 1, amount = 800, pay_method = ''Cash'',
       payment_status = ''Unpaid'', paid_at = None\<rparr>] \<and>
   staff_update_payment bilal 1 (Some ''Bitcoin'') (Some ''Paid'') ''2024-01-03 11:00:00''
     booked_db = (Raised IntegrityError, booked_db)"
  by code_simp

lemma update_payment_ok:
  assumes "sqlite_int bid" and "m \<in> set payment_methods" and "st \<in> set payment_statuses"
  shows "update_payment d (Some m) (Some st) pd bid =
     Inr (d\<lparr>payments :=
            map (\<lambda>p. if p_booking_id p = bid
                     then p\<lparr>pay_method := m, payment_status := st, paid_at := pd\<rparr>
                     else p) (payments d)\<rparr>)"
proof (cases "\<exists>p \<in> set (payments d). p_booking_id p = bid")
  case True
  then show ?thesis using assms by (simp add: update_payment_def)
next
  case False
  then have "map (\<lambda>p. if p_booking_id p = bid
                     then p\<lparr>pay_method := m, payment_status := st, paid_at := pd\<rparr>
                     else p) (payments d) = payments d"
    by (simp add: map_idI)
  with False assms(1) show ?thesis by (simp add: update_payment_def)
qed

lemma update_payment_rejected:
  assumes "sqlite_int bid" and "\<exists>p \<in> set (payments d). p_booking_id p = bid"
    and "\<not> payment_columns_ok method_f status_f"
  shows "update_payment d method_f status_f pd bid = Inl IntegrityError"
  using assms
  by (cases method_f; cases status_f) (auto simp: update_payment_def payment_columns_ok_def)

text \<open>
  C9, amended: a payment update by a Staff or Admin session on a booking with a
  payment row, in a store whose keys are SQLite integers. When the method is among
  Cash, Card, Online and the status among Unpaid, Paid, Partial, Refunded, the request
  succeeds whatever the row held before: in every payment row of the booking, method
  and status are the posted ones and \<open>paid_at\<close> is the reading \<open>t\<close> of the clock when the
  new status is Paid and NULL otherwise; the amount, the key and the booking of every
  row are unchanged, rows of other bookings are unchanged, and so is the rest of the
  database. With any other method or status, or a missing field, the request raises
  \<open>IntegrityError\<close> and the database is left as it was.
\<close>

theorem staff_update_payment_effect:
  assumes staff: "require_staff sess"
    and row: "\<exists>p \<in> set (payments d). p_booking_id p = bid"
    and ints: "int64_keys d"
  shows "if payment_columns_ok method_f status_f
    then \<exists>ps.
        staff_update_payment sess bid method_f status_f t d =
          (Flash Payment_updated ''success'', d\<lparr>payments := ps\<rparr>)
      \<and> length ps = length (payments d)
      \<and> (\<forall>i < length (payments d).
            amount (ps ! i) = amount (payments d ! i)
          \<and> payment_id (ps ! i) = payment_id (payments d ! i)
          \<and> p_booking_id (ps ! i) = p_booking_id (payments d ! i)
          \<and> (if p_booking_id (payments d ! i) = bid
              then method_f = Some (pay_method (ps ! i))
                 \<and> status_f = Some (payment_status (ps ! i))
                 \<and> (paid_at (ps ! i) = Some t \<longleftrightarrow> status_f = Some ''Paid'')
                 \<and> (paid_at (ps ! i) = None \<longleftrightarrow> status_f \<noteq> Some ''Paid'')
              else ps ! i = payments d ! i))
    else staff_update_payment sess bid method_f status_f t d = (Raised IntegrityError, d)"
proof (cases "payment_columns_ok method_f status_f")
  case False
  from row ints have i: "sqlite_int bid" by (auto simp: int64_keysD [OF ints])
  from update_payment_rejected [OF i row False] staff False
  show ?thesis by (simp add: staff_update_payment_def Let_def)
next
  case True
  from row ints have i: "sqlite_int bid" by (auto simp: int64_keysD [OF ints])
  from True obtain m st where f: "method_f = Some m" "status_f = Some st"
    and meth: "m \<in> set payment_methods" and stat: "st \<in> set payment_statuses"
    by (auto simp: payment_columns_ok_def split: option.splits)
  let ?pd = "if st = ''Paid'' then Some t else None"
  let ?ps = "map (\<lambda>p. if p_booking_id p = bid
                        then p\<lparr>pay_method := m, payment_status := st, paid_at := ?pd\<rparr>
                        else p) (payments d)"
  have run: "staff_update_payment sess bid method_f status_f t d =
      (Flash Payment_updated ''success'', d\<lparr>payments := ?ps\<rparr>)"
    using staff update_payment_ok [OF i meth stat, of d ?pd]
    by (simp add: staff_update_payment_def Let_def f)
  have props: "length ?ps = length (payments d)
    \<and> (\<forall>i < length (payments d).
          amount (?ps ! i) = amount (payments d ! i)
        \<and> payment_id (?ps ! i) = payment_id (payments d ! i)
        \<and> p_booking_id (?ps ! i) = p_booking_id (payments d ! i)
        \<and> (if p_booking_id (payments d ! i) = bid
            then method_f = Some (pay_method (?ps ! i))
               \<and> status_f = Some (payment_status (?ps ! i))
               \<and> (paid_at (?ps ! i) = Some t \<longleftrightarrow> status_f = Some ''Paid'')
               \<and> (paid_at (?ps ! i) = None \<longleftrightarrow> status_f \<noteq> Some ''Paid'')
            else ?ps ! i = payments d ! i))"
    by (simp add: f)
  from run props have "\<exists>ps.
        staff_update_payment sess bid method_f status_f t d =
          (Flash Payment_updated ''success'', d\<lparr>payments := ps\<rparr>)
      \<and> length ps = length (payments d)
      \<and> (\<forall>i < length (payments d).
            amount (ps ! i) = amount (payments d ! i)
          \<and> payment_id (ps ! i) = payment_id (payments d ! i)
          \<and> p_booking_id (ps ! i) = p_booking_id (payments d ! i)
          \<and> (if p_booking_id (payments d ! i) = bid
              then method_f = Some (pay_method (ps ! i))
                 \<and> status_f = Some (payment_status (ps ! i))
                 \<and> (paid_at (ps ! i) = Some t \<longleftrightarrow> status_f = Some ''Paid'')
                 \<and> (paid_at (ps ! i) = None \<longleftrightarrow> status_f \<noteq> Some ''Paid'')
              else ps ! i = payments d ! i))"
    by blast
  with True show ?thesis by simp
qed

theorem staff_update_payment_effect_witness:
  "staff_update_payment bilal 1 (Some ''Card'') (Some ''Paid'') ''2024-01-03 11:00:00''
     booked_db =
   (Flash Payment_updated ''success'',
    booked_db\<lparr>payments :=
      [\<lparr>payment_id = 1, p_booking_id = 1, amount = 800, pay_method = ''Card'',
        payment_status = ''Paid'', paid_at = Some ''2024-01-03 11:00:00''\<rparr>]\<rparr>) \<and>
   staff_update_payment admin 1 (Some ''Card'') None ''2024-01-03 11:00:00'' booked_db =
   (Raised IntegrityError, booked_db)"
proof -
  have h: "require_staff bilal" "\<exists>p \<in> set (payments booked_db). p_booking_id p = 1"
    "int64_keys booked_db"
    by code_simp+
  have h': "require_staff admin" by code_simp
  have c: "payment_columns_ok (Some ''Card'') (Some ''Paid'')"
    "\<not> payment_columns_ok (Some ''Card'') None"
    by code_simp+
  have e: "staff_update_payment bilal 1 (Some ''Card'') (Some ''Paid'') ''2024-01-03 11:00:00''
     booked_db =
   (Flash Payment_updated ''success'',
    booked_db\<lparr>payments :=
      [\<lparr>payment_id = 1, p_booking_id = 1, amount = 800, pay_method = ''Card'',
        payment_status = ''Paid'', paid_at = Some ''2024-01-03 11:00:00''\<rparr>]\<rparr>)"
    by code_simp
  note ok = staff_update_payment_effect [OF h, of "Some ''Card''" "Some ''Paid''"
      "''2024-01-03 11:00:00''"]
  note rejected = staff_update_payment_effect [OF h' h(2,3), of "Some ''Card''" None
      "''2024-01-03 11:00:00''"]
  from rejected c(2) have r: "staff_update_payment admin 1 (Some ''Card'') None
      ''2024-01-03 11:00:00'' booked_db = (Raised IntegrityError, booked_db)"
    by simp
  from ok e r show ?thesis by - (rule conjI; assumption)
qed

section \<open>Who may create staff and administrator accounts\<close>

text \<open>
  C10, as stated: only a caller of role Admin can create a Staff or Admin user. The
  guard of \<open>create_staff_user\<close> is \<open>require_staff\<close>, which lets both Staff and Admin
  through: the staff member Bilal creates an administrator account.
\<close>

theorem staff_caller_creates_admin_user:
  "bilal = Some \<lparr>s_user_id = 4, s_full_name = ''Bilal'', s_role = ''Staff''\<rparr> \<and>
   create_staff_user demo_hash bilal (Some ''Eve'') (Some ''0399'') None (Some ''Admin'')
     (Some ''pw'') ''2024-01-03 09:00:00'' demo_db =
   (Flash User_created ''success'',
    demo_db\<lparr>users := users demo_db @
       [\<lparr>user_id = 5, full_name = ''Eve'', phone = ''0399'', email = None,
         password_hash = ''#pw'', role = ''Admin'', created_at = ''2024-01-03 09:00:00''\<rparr>],
      seq_users := 5\<rparr>)"
  by code_simp

text \<open>
  C10, amended: only a caller of role Staff or Admin can create a Staff or Admin user.
  A request without a login, or from a session whose role is neither Staff nor Admin,
  is redirected to the login page and the database is left as it was.
\<close>

theorem create_staff_user_requires_staff_or_admin:
  assumes "sess = None \<or> (\<exists>s. sess = Some s \<and> s_role s \<noteq> ''Staff'' \<and> s_role s \<noteq> ''Admin'')"
  shows "create_staff_user hp sess name_f phone_f email_f role_f password_f t d = (Redirect_login, d)
         \<and> failed (fst (create_staff_user hp sess name_f phone_f email_f role_f password_f t d))"
  using assms by (auto simp: create_staff_user_def require_staff_def require_login_def)

theorem create_staff_user_requires_staff_or_admin_witness:
  "create_staff_user demo_hash ali (Some ''Eve'') (Some ''0399'') None (Some ''Admin'')
     (Some ''pw'') ''2024-01-03 09:00:00'' demo_db = (Redirect_login, demo_db)"
  using create_staff_user_requires_staff_or_admin [of ali demo_hash "Some ''Eve''"
     "Some ''0399''" None "Some ''Admin''" "Some ''pw''" "''2024-01-03 09:00:00''" demo_db]
  by (simp add: ali_def)

end
